theory Spec2Isabelle
  imports Complex_Main
begin

section \<open>Python values\<close>

text \<open>
  The exceptions that the modelled code can raise. \<open>IOError\<close> is what the loaders raise
  for a missing file; \<open>CollaboratorError\<close> stands for any other exception coming out of a
  loader or of the field library.
\<close>

datatype exn = IndexError | ValueError | KeyError | NameError | TypeError | IOError
  | CollaboratorError

text \<open>
  A numpy array of one dimension is a list of reals: the arithmetic of the model is exact,
  rounding of binary floating point is not represented. Elementwise addition needs two
  arrays of one shape and raises otherwise.
\<close>

type_synonym array = "real list"

definition arr_add :: "array \<Rightarrow> array \<Rightarrow> exn + array" where
  "arr_add xs ys = (if length xs = length ys then Inr (map2 (+) xs ys) else Inl ValueError)"

definition arr_mul_scalar :: "array \<Rightarrow> real \<Rightarrow> array" where
  "arr_mul_scalar xs k = map (\<lambda>x. x * k) xs"

definition arr_div_scalar :: "array \<Rightarrow> real \<Rightarrow> array" where
  "arr_div_scalar xs k = map (\<lambda>x. x / k) xs"

text \<open>\<open>list(range(start, stop, step))\<close>; a zero step raises \<open>ValueError\<close>.\<close>

definition py_range :: "int \<Rightarrow> int \<Rightarrow> int \<Rightarrow> exn + int list" where
  "py_range start stop step =
     (if step = 0 then Inl ValueError
      else if 0 < step then
        Inr (map (\<lambda>k. start + int k * step) [0..<nat ((stop - start + step - 1) div step)])
      else
        Inr (map (\<lambda>k. start + int k * step) [0..<nat ((start - stop - step - 1) div (- step))]))"

text \<open>
  \<open>sorted(xs, key=key, reverse=True)\<close>: the list is reversed, sorted stably in ascending
  order of the key, and reversed again, so that equal keys keep their order.
\<close>

definition sorted_reverse :: "('a \<Rightarrow> bool) \<Rightarrow> 'a list \<Rightarrow> 'a list" where
  "sorted_reverse key xs = rev (sort_key key (rev xs))"

section \<open>The numeric operators of \<open>core/computations/utils.py\<close>\<close>

text \<open>\<open>reduce(operator.add, items, initial)\<close> over arrays.\<close>

fun reduce_add :: "array list \<Rightarrow> array \<Rightarrow> exn + array" where
  "reduce_add [] initial = Inr initial"
| "reduce_add (x # xs) initial =
     (case arr_add initial x of Inl e \<Rightarrow> Inl e | Inr s \<Rightarrow> reduce_add xs s)"

text \<open>
  \<open>compute_weighted_average_field(*args)\<close>. \<open>args[0]\<close> raises \<open>IndexError\<close> on no
  argument; the slice \<open>args[1 : len(args) - 1]\<close> is \<open>drop 1 (take (len - 1) args)\<close>.
\<close>

definition compute_weighted_average_field :: "array list \<Rightarrow> exn + array" where
  "compute_weighted_average_field args =
     (if args = [] then Inl IndexError
      else case arr_add (arr_mul_scalar (hd args) 0.5) (arr_mul_scalar (last args) 0.5) of
        Inl e \<Rightarrow> Inl e
      | Inr weighted_sum_of_first_and_last_items \<Rightarrow>
          let items_excluding_first_and_last = drop 1 (take (length args - 1) args)
          in if items_excluding_first_and_last \<noteq> [] then
               (case reduce_add items_excluding_first_and_last
                       weighted_sum_of_first_and_last_items of
                  Inl e \<Rightarrow> Inl e
                | Inr total_sum \<Rightarrow>
                    let total_weight =
                          real (length items_excluding_first_and_last) * 1 + 2 * 0.5
                    in Inr (arr_div_scalar total_sum total_weight))
             else Inr weighted_sum_of_first_and_last_items)"



section \<open>Configuration\<close>

text \<open>
  Modelled from the spec: the configuration classes (\<open>core.models\<close>) are not among the
  sources at hand. The records hold the attributes that \<open>run\<close> reads, under their names:
  the computation descriptors, the date range, the predictand (code, accumulation length,
  whether it is accumulated, minimum retained value, error kind) and the predictors (codes,
  sampling interval). An input of a computation is kept as its \<open>code\<close>. Dates are day
  numbers.
\<close>

record Computation =
  shortname :: string
  fullname :: string
  field :: string
  inputs :: "string list"
  isPostProcessed :: bool
  addScale :: real
  mulScale :: real

record Parameters =
  date_start :: int
  date_end :: int

record Predictand =
  code :: string
  accumulation :: int
  is_accumulated :: bool
  min_value :: real
  error :: string

record Predictors =
  codes :: "string list"
  sampling_interval :: int

record Config =
  parameters :: Parameters
  predictand :: Predictand
  predictors :: Predictors
  computations :: "Computation list"

text \<open>
  A case as the scheduler \<open>iter_daterange\<close> yields it:
  \<open>(curr_date, curr_time, step_s, case)\<close>.
\<close>

record Case =
  curr_date :: int
  curr_time :: int
  step_s :: int
  case_number :: int

section \<open>The partition of the computations and the steps of one computation\<close>

definition is_reference :: "Config \<Rightarrow> Computation \<Rightarrow> bool" where
  "is_reference config computation \<longleftrightarrow>
     length (inputs computation) = 1 \<and> inputs computation ! 0 = code (predictand config)"

definition derived_computations :: "Config \<Rightarrow> Computation list" where
  "derived_computations config =
     filter (\<lambda>computation.
               set (inputs computation) - set (codes (predictors config)) \<noteq> {}
               \<and> isPostProcessed computation
               \<and> field computation \<noteq> ''LOCAL_SOLAR_TIME'')
       (computations config)"

definition base_computations :: "Config \<Rightarrow> Computation list" where
  "base_computations config =
     sorted_reverse (is_reference config)
       (filter (\<lambda>computation.
                  computation \<notin> set (derived_computations config)
                  \<and> field computation \<noteq> ''LOCAL_SOLAR_TIME'')
          (computations config))"

text \<open>
  The step generation at the head of the loop over the base computations; \<open>s\<close> is the
  case's \<open>step_s\<close>.
\<close>

definition steps :: "Config \<Rightarrow> Computation \<Rightarrow> int \<Rightarrow> exn + int list" where
  "steps config computation s =
     (let acc = accumulation (predictand config) in
      if \<not> is_accumulated (predictand config) then Inr [s]
      else if field computation = ''24H_SOLAR_RADIATION'' then
        (if acc = 24 then Inr [s, s + acc]
         else if s + acc \<le> 24 then Inr [0, 24]
         else Inr [s + acc - 24, s + acc])
      else if field computation \<in> set [''WEIGHTED_AVERAGE_FIELD'', ''AVERAGE_FIELD''] then
        py_range s (s + acc + 1) (sampling_interval (predictors config))
      else if field computation \<in> set [''MAXIMUM_FIELD'', ''MINIMUM_FIELD''] then
        py_range (s + sampling_interval (predictors config)) (s + acc + 1)
          (sampling_interval (predictors config))
      else Inr [s, s + acc])"

section \<open>Observations, fields and the collaborators of \<open>run\<close>\<close>

text \<open>
  Modelled from the spec: the geopoints class and \<open>core.loaders.geopoints\<close> are not among
  the sources at hand. An observation set is a sequence of (latitude, longitude, value)
  triples; \<open>geopoints >= m\<close> is the boolean mask that is true where the value is at least
  \<open>m\<close>; \<open>geopoints.filter(mask)\<close> is the subsequence at the positions where the mask is
  true, in order. A geopoints object is false in a condition when it is empty.
\<close>

record geopoint =
  latitude :: real
  longitude :: real
  val :: real

type_synonym geopoints = "geopoint list"

definition get_geopoints_values :: "geopoints \<Rightarrow> array" where
  "get_geopoints_values g = map val g"

definition latitudes :: "geopoints \<Rightarrow> array" where
  "latitudes g = map latitude g"

definition longitudes :: "geopoints \<Rightarrow> array" where
  "longitudes g = map longitude g"

definition geopoints_ge :: "geopoints \<Rightarrow> real \<Rightarrow> bool list" where
  "geopoints_ge g m = map (\<lambda>p. val p \<ge> m) g"

definition geopoints_filter :: "geopoints \<Rightarrow> bool list \<Rightarrow> geopoints" where
  "geopoints_filter g m = map snd (filter fst (zip m g))"

text \<open>
  A value that \<open>Computer.run\<close> takes or returns: a gridded field (of a type \<open>'f\<close> that the
  model leaves open), a numpy array, or an integer.
\<close>

datatype 'f pyval = Fieldset 'f | Ndarray array | PyInt int

text \<open>
  The files are named by what the path is built from. A forecast file: predictor code,
  issue date, issue hour, step. An observation file: predictand code, accumulation (when
  the predictand is accumulated), validity date and hour.
\<close>

datatype path = GribPath string int int int | ObsPath string "int option" int int

text \<open>
  The collaborators whose code is not at hand are parameters of the model: the two
  loaders, \<open>Computer.run\<close>, the nearest-gridpoint projection, the \<open>values\<close> attribute of a
  field, \<open>np.around(_, decimals=3)\<close> and the arithmetic of geopoints.
\<close>

record 'f Env =
  read_geopoints :: "path \<Rightarrow> exn + geopoints"
  from_path :: "path \<Rightarrow> exn + 'f"
  computer_run :: "Computation \<Rightarrow> 'f pyval list \<Rightarrow> exn + 'f pyval"
  nearest_gridpoint :: "'f pyval \<Rightarrow> geopoints \<Rightarrow> exn + geopoints"
  values_of :: "'f pyval \<Rightarrow> exn + 'f pyval"
  around :: "array \<Rightarrow> array"
  geopoints_sub :: "geopoints \<Rightarrow> geopoints \<Rightarrow> exn + geopoints"
  geopoints_div :: "geopoints \<Rightarrow> geopoints \<Rightarrow> exn + geopoints"

section \<open>The state of \<open>run\<close>\<close>

text \<open>
  The string \<open>forecast\<close> that keys \<open>counter_used_FC\<close> renders the issue date, the issue
  hour and the step (for an accumulated predictand also the end of the window); the model
  keeps the rendered numbers.
\<close>

datatype forecast_label = ForecastAcc int int int int | ForecastInst int int int

datatype message =
    AlreadyConsidered int
  | OutOfCalibrationPeriod
  | ObservationFileNotFound path
  | ObservationReadError path
  | NoObservationInFile path
  | ForecastFileNotFound path
  | ForecastReadFailed path
  | NoObservationAboveMinimum string real

datatype cell = DateCell int | IntCell int | RealCell real

type_synonym columns = "(string \<times> cell list) list"

text \<open>
  What \<open>run\<close> does to the outside, in order: the files it asks the loaders for, the lines
  it logs at warning and at error level (the info lines are left out), and the chunks it
  hands to the serializer.
\<close>

datatype event =
    ReadObservations path
  | ReadForecast path
  | LogWarning message
  | LogError message
  | AddColumnsChunk columns

text \<open>The chunks that a trace hands to the serializer, and the files that it reads.\<close>

fun chunks :: "event list \<Rightarrow> columns list" where
  "chunks [] = []"
| "chunks (AddColumnsChunk cols # es) = cols # chunks es"
| "chunks (_ # es) = chunks es"

fun files_read :: "event list \<Rightarrow> path list" where
  "files_read [] = []"
| "files_read (ReadObservations p # es) = p # files_read es"
| "files_read (ReadForecast p # es) = p # files_read es"
| "files_read (_ # es) = files_read es"

text \<open>
  The local variables of \<open>run\<close> that outlive an iteration of the loop over the cases. A
  variable that is not bound yet is \<open>None\<close>, and reading it raises \<open>NameError\<close>.
\<close>

record 'f Vars =
  counter_used_FC :: "forecast_label \<rightharpoonup> int"
  obsTOT :: int
  obsUSED :: int
  mask :: "bool list option"
  ref_geopoints :: "geopoints option"
  ref_code :: "string option"
  computations_cache :: "string \<rightharpoonup> 'f pyval"
  computations_result :: "(string \<times> array) list"
  trace :: "event list"

text \<open>How the body of a loop ends: it falls through, it sets \<open>skip\<close> and breaks, or it raises.\<close>

datatype 'a flow = Continue 'a | Break 'a | Raise exn

section \<open>One case of \<open>run\<close>\<close>

definition forecast :: "Config \<Rightarrow> Case \<Rightarrow> forecast_label" where
  "forecast config c =
     (if is_accumulated (predictand config) then
        ForecastAcc (curr_date c) (curr_time c) (step_s c)
          (step_s c + accumulation (predictand config))
      else ForecastInst (curr_date c) (curr_time c) (step_s c))"

definition get_grib_path :: "Case \<Rightarrow> string \<Rightarrow> int \<Rightarrow> path" where
  "get_grib_path c predictor_code step = GribPath predictor_code (curr_date c) (curr_time c) step"

text \<open>\<open>validDateF\<close>, in hours since day 0: the issue date and hour plus \<open>step_s + acc\<close> hours.\<close>

definition validDateF :: "Config \<Rightarrow> Case \<Rightarrow> int" where
  "validDateF config c =
     curr_date c * 24 + curr_time c + (step_s c + accumulation (predictand config))"

definition DateVF :: "Config \<Rightarrow> Case \<Rightarrow> int" where
  "DateVF config c = validDateF config c div 24"

definition HourVF_num :: "Config \<Rightarrow> Case \<Rightarrow> int" where
  "HourVF_num config c = validDateF config c mod 24"

definition obs_path :: "Config \<Rightarrow> Case \<Rightarrow> path" where
  "obs_path config c =
     (if is_accumulated (predictand config) then
        ObsPath (code (predictand config)) (Some (accumulation (predictand config)))
          (DateVF config c) (HourVF_num config c)
      else ObsPath (code (predictand config)) None (DateVF config c) (HourVF_num config c))"

text \<open>
  The loop that reads the forecast files of one computation: the first file that cannot
  be read ends it with \<open>skip\<close> set (the result \<open>None\<close>).
\<close>

fun read_fieldsets ::
  "'f Env \<Rightarrow> path list \<Rightarrow> 'f list \<Rightarrow> event list \<Rightarrow> 'f list option \<times> event list" where
  "read_fieldsets env [] computation_steps tr = (Some computation_steps, tr)"
| "read_fieldsets env (p # ps) computation_steps tr =
     (case from_path env p of
        Inl e \<Rightarrow>
          (None, tr @ [ReadForecast p,
                       if e = IOError then LogWarning (ForecastFileNotFound p)
                       else LogError (ForecastReadFailed p)])
      | Inr fieldset \<Rightarrow>
          read_fieldsets env ps (computation_steps @ [fieldset]) (tr @ [ReadForecast p]))"

text \<open>The body of the loop over the base computations.\<close>

definition base_step ::
  "'f Env \<Rightarrow> Config \<Rightarrow> real \<Rightarrow> Case \<Rightarrow> geopoints \<Rightarrow> Computation \<Rightarrow> 'f Vars \<Rightarrow> 'f Vars flow" where
  "base_step env config predictand_min_value c obs computation v =
     (case inputs computation of
        [] \<Rightarrow> Raise IndexError
      | predictor_code # _ \<Rightarrow>
     (case steps config computation (step_s c) of
        Inl e \<Rightarrow> Raise e
      | Inr step_list \<Rightarrow>
     (case read_fieldsets env (map (get_grib_path c predictor_code) step_list) [] (trace v) of
        (None, tr) \<Rightarrow> Break (v\<lparr>trace := tr\<rparr>)
      | (Some computation_steps, tr) \<Rightarrow>
     (case computer_run env computation (map Fieldset computation_steps) of
        Inl e \<Rightarrow> Raise e
      | Inr computed_value \<Rightarrow>
          let v = v\<lparr>trace := tr,
                     computations_cache :=
                       (computations_cache v)(shortname computation \<mapsto> computed_value)\<rparr>
          in
          if \<not> isPostProcessed computation then Continue v
          else
     (case nearest_gridpoint env computed_value obs of
        Inl e \<Rightarrow> Raise e
      | Inr geopoints \<Rightarrow>
          if is_reference config computation then
            let v = v\<lparr>ref_code := Some (shortname computation)\<rparr>;
                v = (if is_accumulated (predictand config) then
                       let m = geopoints_ge geopoints predictand_min_value
                       in v\<lparr>mask := Some m,
                             ref_geopoints := Some (geopoints_filter geopoints m)\<rparr>
                     else v\<lparr>ref_geopoints := Some geopoints\<rparr>)
            in
            if ref_geopoints v = Some [] then
              Break (if is_accumulated (predictand config) then
                       v\<lparr>trace := trace v @
                           [LogWarning (NoObservationAboveMinimum (shortname computation)
                                          predictand_min_value)]\<rparr>
                     else v)
            else
              Continue (v\<lparr>computations_result := computations_result v @
                            [(shortname computation,
                              around env (get_geopoints_values (the (ref_geopoints v))))]\<rparr>)
          else if is_accumulated (predictand config) then
            (case mask v of
               None \<Rightarrow> Raise NameError
             | Some m \<Rightarrow>
                 Continue (v\<lparr>computations_result := computations_result v @
                               [(shortname computation,
                                 around env (get_geopoints_values
                                               (geopoints_filter geopoints m)))]\<rparr>))
          else
            Continue (v\<lparr>computations_result := computations_result v @
                          [(shortname computation,
                            around env (get_geopoints_values geopoints))]\<rparr>))))))"

fun base_loop ::
  "'f Env \<Rightarrow> Config \<Rightarrow> real \<Rightarrow> Case \<Rightarrow> geopoints \<Rightarrow> Computation list \<Rightarrow> 'f Vars \<Rightarrow> 'f Vars flow" where
  "base_loop env config predictand_min_value c obs [] v = Continue v"
| "base_loop env config predictand_min_value c obs (computation # rest) v =
     (case base_step env config predictand_min_value c obs computation v of
        Continue v' \<Rightarrow> base_loop env config predictand_min_value c obs rest v'
      | Break v' \<Rightarrow> Break v'
      | Raise e \<Rightarrow> Raise e)"

text \<open>
  \<open>[computations_cache[field_input["code"]] for field_input in computation.inputs]\<close>:
  \<open>None\<close> is the \<open>KeyError\<close> of the first code that is not cached.
\<close>

fun lookup_all :: "('k \<rightharpoonup> 'a) \<Rightarrow> 'k list \<Rightarrow> 'a list option" where
  "lookup_all m [] = Some []"
| "lookup_all m (k # ks) =
     (case m k of
        None \<Rightarrow> None
      | Some x \<Rightarrow> (case lookup_all m ks of None \<Rightarrow> None | Some xs \<Rightarrow> Some (x # xs)))"

text \<open>
  \<open>get_geopoints_values(x.nearest_gridpoint(obs).filter(mask))\<close> and
  \<open>get_geopoints_values(x.nearest_gridpoint(obs))\<close>.
\<close>

definition filtered_values :: "'f Env \<Rightarrow> geopoints \<Rightarrow> 'f Vars \<Rightarrow> 'f pyval \<Rightarrow> exn + array" where
  "filtered_values env obs v x =
     (case nearest_gridpoint env x obs of
        Inl e \<Rightarrow> Inl e
      | Inr g \<Rightarrow>
          (case mask v of
             None \<Rightarrow> Inl NameError
           | Some m \<Rightarrow> Inr (get_geopoints_values (geopoints_filter g m))))"

definition plain_values :: "'f Env \<Rightarrow> geopoints \<Rightarrow> 'f pyval \<Rightarrow> exn + array" where
  "plain_values env obs x =
     (case nearest_gridpoint env x obs of
        Inl e \<Rightarrow> Inl e
      | Inr g \<Rightarrow> Inr (get_geopoints_values g))"

definition append_result :: "'f Env \<Rightarrow> Computation \<Rightarrow> array \<Rightarrow> 'f Vars \<Rightarrow> 'f Vars" where
  "append_result env computation a v =
     v\<lparr>computations_result := computations_result v @ [(shortname computation, around env a)]\<rparr>"

text \<open>
  The body of the loop over the derived computations. The ratio of two arrays is an
  array; another kind of result from \<open>Computer.run\<close> there is outside the model and
  stands as \<open>TypeError\<close>.
\<close>

definition derived_step ::
  "'f Env \<Rightarrow> Config \<Rightarrow> geopoints \<Rightarrow> Computation \<Rightarrow> 'f Vars \<Rightarrow> exn + 'f Vars" where
  "derived_step env config obs computation v =
     (case lookup_all (computations_cache v) (inputs computation) of
        None \<Rightarrow> Inl KeyError
      | Some step_values \<Rightarrow>
          if field computation = ''RATIO_FIELD'' then
            (case step_values of
               [dividend, divisor] \<Rightarrow>
                 if is_accumulated (predictand config) then
                   (case filtered_values env obs v dividend of
                      Inl e \<Rightarrow> Inl e
                    | Inr a \<Rightarrow>
                   (case filtered_values env obs v divisor of
                      Inl e \<Rightarrow> Inl e
                    | Inr b \<Rightarrow>
                   (case computer_run env computation [Ndarray a, Ndarray b] of
                      Inl e \<Rightarrow> Inl e
                    | Inr (Ndarray computed_value) \<Rightarrow>
                        Inr (append_result env computation computed_value v)
                    | Inr _ \<Rightarrow> Inl TypeError)))
                 else
                   (case values_of env dividend of
                      Inl e \<Rightarrow> Inl e
                    | Inr a \<Rightarrow>
                   (case values_of env divisor of
                      Inl e \<Rightarrow> Inl e
                    | Inr b \<Rightarrow>
                   (case computer_run env computation [a, b] of
                      Inl e \<Rightarrow> Inl e
                    | Inr r \<Rightarrow>
                   (case plain_values env obs r of
                      Inl e \<Rightarrow> Inl e
                    | Inr computed_value \<Rightarrow>
                        Inr (append_result env computation computed_value v)))))
             | _ \<Rightarrow> Inl ValueError)
          else
            (case computer_run env computation step_values of
               Inl e \<Rightarrow> Inl e
             | Inr computed_value \<Rightarrow>
                 (case (if is_accumulated (predictand config)
                        then filtered_values env obs v computed_value
                        else plain_values env obs computed_value) of
                    Inl e \<Rightarrow> Inl e
                  | Inr a \<Rightarrow> Inr (append_result env computation a v))))"

fun derived_loop ::
  "'f Env \<Rightarrow> Config \<Rightarrow> geopoints \<Rightarrow> Computation list \<Rightarrow> 'f Vars \<Rightarrow> exn + 'f Vars" where
  "derived_loop env config obs [] v = Inr v"
| "derived_loop env config obs (computation # rest) v =
     (case derived_step env config obs computation v of
        Inl e \<Rightarrow> Inl e
      | Inr v' \<Rightarrow> derived_loop env config obs rest v')"

text \<open>The error columns: \<open>obs\<close> here is the observation set after the mask.\<close>

definition vals_errors :: "'f Env \<Rightarrow> Config \<Rightarrow> geopoints \<Rightarrow> 'f Vars \<Rightarrow> exn + (string \<times> array) list" where
  "vals_errors env config obs v =
     (case (if error (predictand config) = ''FER'' then
              (case ref_geopoints v of
                 None \<Rightarrow> Inl NameError
               | Some rg \<Rightarrow>
                   (case geopoints_sub env obs rg of
                      Inl e \<Rightarrow> Inl e
                    | Inr d \<Rightarrow>
                        (case geopoints_div env d rg of
                           Inl e \<Rightarrow> Inl e
                         | Inr FER \<Rightarrow> Inr [(''FER'', around env (get_geopoints_values FER))])))
            else Inr []) of
        Inl e \<Rightarrow> Inl e
      | Inr fer \<Rightarrow>
          (if error (predictand config) = ''FE'' then
             (case ref_geopoints v of
                None \<Rightarrow> Inl NameError
              | Some rg \<Rightarrow>
                  (case geopoints_sub env obs rg of
                     Inl e \<Rightarrow> Inl e
                   | Inr FE \<Rightarrow> Inr (fer @ [(''FE'', around env (get_geopoints_values FE))])))
           else Inr fer))"

text \<open>The local-solar-time column, from the first computation of that kind.\<close>

definition vals_LST :: "'f Env \<Rightarrow> Config \<Rightarrow> Case \<Rightarrow> array \<Rightarrow> exn + (string \<times> array) list" where
  "vals_LST env config c lonObs =
     (case find (\<lambda>computation. field computation = ''LOCAL_SOLAR_TIME'') (computations config) of
        None \<Rightarrow> Inr []
      | Some LST_computation \<Rightarrow>
          if isPostProcessed LST_computation then
            (case computer_run env LST_computation [Ndarray lonObs, PyInt (HourVF_num config c)] of
               Inl e \<Rightarrow> Inl e
             | Inr (Ndarray a) \<Rightarrow> Inr [(''LST'', around env a)]
             | Inr _ \<Rightarrow> Inl TypeError)
          else Inr [])"

definition real_column :: "string \<times> array \<Rightarrow> string \<times> cell list" where
  "real_column col = (fst col, map RealCell (snd col))"

text \<open>
  From the filtering of the observations to the call of the serializer; \<open>obs0\<close> is the
  observation set as read.
\<close>

definition assemble_rows ::
  "'f Env \<Rightarrow> Config \<Rightarrow> Case \<Rightarrow> geopoints \<Rightarrow> 'f Vars \<Rightarrow> exn + 'f Vars" where
  "assemble_rows env config c obs0 v =
     (case (if is_accumulated (predictand config) then
              (case mask v of None \<Rightarrow> Inl NameError | Some m \<Rightarrow> Inr (geopoints_filter obs0 m))
            else Inr obs0) of
        Inl e \<Rightarrow> Inl e
      | Inr obs \<Rightarrow>
          let latObs = latitudes obs; lonObs = longitudes obs in
     (case vals_errors env config obs v of
        Inl e \<Rightarrow> Inl e
      | Inr errors \<Rightarrow>
     (case vals_LST env config c lonObs of
        Inl e \<Rightarrow> Inl e
      | Inr lst \<Rightarrow>
     (case ref_geopoints v of
        None \<Rightarrow> Inl NameError
      | Some rg \<Rightarrow>
          let n = length obs;
              v = v\<lparr>obsUSED := obsUSED v + int n\<rparr>;
              columns =
                [(''BaseDate'', replicate n (DateCell (curr_date c))),
                 (''BaseTime'', replicate n (IntCell (curr_time c))),
                 (if is_accumulated (predictand config) then ''StepF'' else ''Step'',
                  replicate n (IntCell (step_s c + accumulation (predictand config)))),
                 (''DateOBS'', replicate n (DateCell (DateVF config c))),
                 (''TimeOBS'', replicate n (IntCell (HourVF_num config c)))]
                @ [(''LatOBS'', map RealCell latObs),
                   (''LonOBS'', map RealCell lonObs),
                   (''OBS'', map RealCell (get_geopoints_values obs)),
                   (''Predictand'', map RealCell (around env (get_geopoints_values rg)))]
                @ map real_column errors
                @ map real_column lst
                @ map real_column (computations_result v)
          in Inr (v\<lparr>trace := trace v @ [AddColumnsChunk columns]\<rparr>)))))"

text \<open>
  The body of the loop over the cases from the reading of the observations on, that is
  after the case has been entered in \<open>counter_used_FC\<close>. The result \<open>Inl e\<close> is an
  exception that nothing in \<open>run\<close> catches: it ends the run.
\<close>

definition evaluate_case :: "'f Env \<Rightarrow> Config \<Rightarrow> real \<Rightarrow> 'f Vars \<Rightarrow> Case \<Rightarrow> exn + 'f Vars" where
  "evaluate_case env config predictand_min_value v c =
     (let p = obs_path config c;
          v = v\<lparr>trace := trace v @ [ReadObservations p]\<rparr>
      in
      case read_geopoints env p of
        Inl e \<Rightarrow>
          Inr (v\<lparr>trace := trace v @
                    [if e = IOError then LogWarning (ObservationFileNotFound p)
                     else LogError (ObservationReadError p)]\<rparr>)
      | Inr obs \<Rightarrow>
          let nOBS = length obs in
          if nOBS = 0 then Inr (v\<lparr>trace := trace v @ [LogWarning (NoObservationInFile p)]\<rparr>)
          else
            let v = v\<lparr>obsTOT := obsTOT v + int nOBS,
                       computations_cache := Map.empty,
                       computations_result := []\<rparr>
            in
     (case base_loop env config predictand_min_value c obs (base_computations config) v of
        Raise e \<Rightarrow> Inl e
      | Break v \<Rightarrow> Inr v
      | Continue v \<Rightarrow>
     (case derived_loop env config obs (derived_computations config) v of
        Inl e \<Rightarrow> Inl e
      | Inr v \<Rightarrow> assemble_rows env config c obs v)))"

text \<open>
  The body of the loop over the cases: the duplicate check, the check of the calibration
  period, the entry in \<open>counter_used_FC\<close>, and the rest.
\<close>

definition run_case :: "'f Env \<Rightarrow> Config \<Rightarrow> real \<Rightarrow> 'f Vars \<Rightarrow> Case \<Rightarrow> exn + 'f Vars" where
  "run_case env config predictand_min_value v c =
     (case counter_used_FC v (forecast config c) of
        Some earlier \<Rightarrow> Inr (v\<lparr>trace := trace v @ [LogWarning (AlreadyConsidered earlier)]\<rparr>)
      | None \<Rightarrow>
          if curr_date c < date_start (parameters config)
             \<or> curr_date c > date_end (parameters config)
          then Inr (v\<lparr>trace := trace v @ [LogWarning OutOfCalibrationPeriod]\<rparr>)
          else
            evaluate_case env config predictand_min_value
              (v\<lparr>counter_used_FC := (counter_used_FC v)(forecast config c \<mapsto> case_number c)\<rparr>)
              c)"

section \<open>The run\<close>

definition predictand_min_value :: "Config \<Rightarrow> exn + real" where
  "predictand_min_value config =
     (case computations config of
        [] \<Rightarrow> Inl IndexError
      | first # _ \<Rightarrow> Inr ((min_value (predictand config) + addScale first) * mulScale first))"

definition initial_vars :: "'f Vars" where
  "initial_vars =
     \<lparr>counter_used_FC = Map.empty, obsTOT = 0, obsUSED = 0, mask = None, ref_geopoints = None,
      ref_code = None, computations_cache = Map.empty, computations_result = [], trace = []\<rparr>"

fun run_cases :: "'f Env \<Rightarrow> Config \<Rightarrow> real \<Rightarrow> 'f Vars \<Rightarrow> Case list \<Rightarrow> exn + 'f Vars" where
  "run_cases env config m v [] = Inr v"
| "run_cases env config m v (c # cs) =
     (case run_case env config m v c of
        Inl e \<Rightarrow> Inl e
      | Inr v' \<Rightarrow> run_cases env config m v' cs)"


section \<open>Values that a mask has filtered\<close>



section \<open>Concrete configurations\<close>

text \<open>Small configurations on which the definitions are evaluated.\<close>

definition example_computation :: "string \<Rightarrow> string \<Rightarrow> string list \<Rightarrow> bool \<Rightarrow> Computation" where
  "example_computation name kind ins exposed =
     \<lparr>shortname = name, fullname = name, field = kind, inputs = ins,
      isPostProcessed = exposed, addScale = 0, mulScale = 1\<rparr>"

definition example_config :: "bool \<Rightarrow> int \<Rightarrow> Computation list \<Rightarrow> Config" where
  "example_config accumulated acc cs =
     \<lparr>parameters = \<lparr>date_start = 0, date_end = 10\<rparr>,
      predictand = \<lparr>code = ''tp'', accumulation = acc, is_accumulated = accumulated,
                    min_value = 3, error = ''FE''\<rparr>,
      predictors = \<lparr>codes = [''tp'', ''cape''], sampling_interval = 6\<rparr>,
      computations = cs\<rparr>"

text \<open>
  An environment over fields of five grid points, the \<open>i\<close>-th being the nearest to the
  \<open>i\<close>-th observation. The forecast files of day 4 are missing, those of day 3 hold small
  values; the observation file of day 5 is missing and that of day 6 is empty.
\<close>

definition example_obs :: geopoints where
  "example_obs =
     [\<lparr>latitude = 10, longitude = 30, val = 2\<rparr>,
      \<lparr>latitude = 11, longitude = - 60, val = 1\<rparr>,
      \<lparr>latitude = 12, longitude = 0, val = 4\<rparr>,
      \<lparr>latitude = 13, longitude = 45, val = 3\<rparr>,
      \<lparr>latitude = 14, longitude = 90, val = 7\<rparr>]"

definition example_env :: "array Env" where
  "example_env =
     \<lparr>read_geopoints =
        (\<lambda>p. case p of
               ObsPath name a d h \<Rightarrow>
                 if d = 5 then Inl IOError else if d = 6 then Inr [] else Inr example_obs
             | GribPath name d t s \<Rightarrow> Inl IOError),
      from_path =
        (\<lambda>p. case p of
               GribPath name d t s \<Rightarrow>
                 if d = 4 then Inl IOError
                 else if s = 0 then Inr [0, 0, 0, 0, 0]
                 else if d = 3 then Inr [1, 1, 1, 2, 1]
                 else if name = ''tp'' then Inr [1, 2, 3, 4, 5]
                 else Inr [50, 40, 30, 20, 10]
             | ObsPath name a d h \<Rightarrow> Inl IOError),
      computer_run =
        (\<lambda>computation args. case args of
               [Fieldset a] \<Rightarrow> Inr (Fieldset a)
             | [Fieldset a, Fieldset b] \<Rightarrow> Inr (Fieldset (map2 (-) b a))
             | [Ndarray a, Ndarray b] \<Rightarrow> Inr (Ndarray (map2 (/) a b))
             | _ \<Rightarrow> Inl TypeError),
      nearest_gridpoint =
        (\<lambda>x obs. case x of
               Fieldset xs \<Rightarrow> Inr (map2 (\<lambda>p y. p\<lparr>val := y\<rparr>) obs xs)
             | _ \<Rightarrow> Inl TypeError),
      values_of = (\<lambda>x. case x of Fieldset xs \<Rightarrow> Inr (Ndarray xs) | _ \<Rightarrow> Inl TypeError),
      around = (\<lambda>a. a),
      geopoints_sub = (\<lambda>a b. Inr (map2 (\<lambda>p q. p\<lparr>val := val p - val q\<rparr>) a b)),
      geopoints_div = (\<lambda>a b. Inr (map2 (\<lambda>p q. p\<lparr>val := val p / val q\<rparr>) a b))\<rparr>"

definition example_computations :: "Computation list" where
  "example_computations =
     [example_computation ''CAPE'' ''ACCUMULATED_FIELD'' [''cape''] True,
      example_computation ''TP'' ''ACCUMULATED_FIELD'' [''tp''] True,
      example_computation ''RATIO'' ''RATIO_FIELD'' [''CAPE'', ''TP''] True,
      example_computation ''DIFF'' ''ACCUMULATED_FIELD'' [''CAPE'', ''TP''] True]"

definition example_case :: "int \<Rightarrow> int \<Rightarrow> Case" where
  "example_case d n = \<lparr>curr_date = d, curr_time = 0, step_s = 0, case_number = n\<rparr>"

section \<open>The weighted average\<close>

lemma reduce_add_same_shape:
  "\<forall>x\<in>set xs. length x = n \<Longrightarrow> length initial = n \<Longrightarrow>
   reduce_add xs initial = Inr (map (\<lambda>i. initial ! i + (\<Sum>a\<leftarrow>xs. a ! i)) [0..<n])"
proof (induction xs arbitrary: initial)
  case Nil
  then show ?case by (auto simp: map_nth)
next
  case (Cons x xs)
  have lx: "length x = n" using Cons.prems by simp
  have step: "arr_add initial x = Inr (map2 (+) initial x)"
    using Cons.prems lx by (simp add: arr_add_def)
  have len: "length (map2 (+) initial x) = n" using Cons.prems lx by simp
  have "reduce_add xs (map2 (+) initial x)
        = Inr (map (\<lambda>i. map2 (+) initial x ! i + (\<Sum>a\<leftarrow>xs. a ! i)) [0..<n])"
    using Cons.IH [OF _ len] Cons.prems by simp
  also have "map (\<lambda>i. map2 (+) initial x ! i + (\<Sum>a\<leftarrow>xs. a ! i)) [0..<n]
        = map (\<lambda>i. initial ! i + (\<Sum>a\<leftarrow>x # xs. a ! i)) [0..<n]"
    using Cons.prems lx by (intro map_cong) (auto simp: add.assoc)
  finally show ?case using step by simp
qed

lemma interior_slice: "drop 1 (take (length args - 1) args) = tl (butlast args)"
  by (simp add: butlast_conv_take drop_Suc)

lemma weighted_average_unfold:
  "compute_weighted_average_field args =
     (if args = [] then Inl IndexError
      else case arr_add (arr_mul_scalar (hd args) 0.5) (arr_mul_scalar (last args) 0.5) of
        Inl e \<Rightarrow> Inl e
      | Inr w \<Rightarrow>
          if tl (butlast args) \<noteq> [] then
            (case reduce_add (tl (butlast args)) w of
               Inl e \<Rightarrow> Inl e
             | Inr total_sum \<Rightarrow>
                 Inr (arr_div_scalar total_sum (real (length (tl (butlast args))) + 1)))
          else Inr w)"
  unfolding compute_weighted_average_field_def interior_slice Let_def
  by (simp split: sum.splits)

lemma weighted_average_same_shape:
  assumes "2 \<le> length args" and "\<forall>a\<in>set args. length a = n"
  shows "compute_weighted_average_field args =
           Inr (map (\<lambda>i. (0.5 * hd args ! i + (\<Sum>a\<leftarrow>tl (butlast args). a ! i)
                            + 0.5 * last args ! i)
                          / (real (length (tl (butlast args))) + 1)) [0..<n])"
proof -
  have ne: "args \<noteq> []" using assms(1) by auto
  have lh: "length (hd args) = n" and ll: "length (last args) = n"
    using assms(2) ne by auto
  define w where "w = map2 (+) (arr_mul_scalar (hd args) 0.5) (arr_mul_scalar (last args) 0.5)"
  have w: "arr_add (arr_mul_scalar (hd args) 0.5) (arr_mul_scalar (last args) 0.5) = Inr w"
    using lh ll by (simp add: arr_add_def arr_mul_scalar_def w_def)
  have lw: "length w = n" using lh ll by (simp add: w_def arr_mul_scalar_def)
  have wi: "\<And>i. i < n \<Longrightarrow> w ! i = 0.5 * hd args ! i + 0.5 * last args ! i"
    using lh ll by (simp add: w_def arr_mul_scalar_def)
  have sub: "\<forall>x\<in>set (tl (butlast args)). length x = n"
  proof
    fix x assume "x \<in> set (tl (butlast args))"
    then have "x \<in> set (butlast args)" by (cases "butlast args") auto
    then have "x \<in> set args" by (rule in_set_butlastD)
    then show "length x = n" using assms(2) by simp
  qed
  show ?thesis
  proof (cases "tl (butlast args) = []")
    case True
    have "compute_weighted_average_field args = Inr w"
      using ne w True by (simp add: weighted_average_unfold)
    moreover have "w = map (\<lambda>i. (0.5 * hd args ! i + (\<Sum>a\<leftarrow>tl (butlast args). a ! i)
                                   + 0.5 * last args ! i)
                          / (real (length (tl (butlast args))) + 1)) [0..<n]"
      using lw wi True by (intro nth_equalityI) auto
    ultimately show ?thesis by simp
  next
    case False
    have "compute_weighted_average_field args =
            Inr (arr_div_scalar (map (\<lambda>i. w ! i + (\<Sum>a\<leftarrow>tl (butlast args). a ! i)) [0..<n])
                   (real (length (tl (butlast args))) + 1))"
      using ne w False reduce_add_same_shape [OF sub lw]
      by (simp add: weighted_average_unfold)
    moreover have "arr_div_scalar (map (\<lambda>i. w ! i + (\<Sum>a\<leftarrow>tl (butlast args). a ! i)) [0..<n])
                   (real (length (tl (butlast args))) + 1)
        = map (\<lambda>i. (0.5 * hd args ! i + (\<Sum>a\<leftarrow>tl (butlast args). a ! i) + 0.5 * last args ! i)
                          / (real (length (tl (butlast args))) + 1)) [0..<n]"
      using wi by (simp add: arr_div_scalar_def)
    ultimately show ?thesis by simp
  qed
qed

text \<open>
  Claim C4. For two or more inputs of one shape (arrays of \<open>n\<close> points), the weighted
  average is, at every point \<open>i\<close>, half the first input plus the sum of the interior
  inputs \<open>tl (butlast args)\<close> plus half the last input, divided by the number of interior
  inputs plus one. The weighted average of 10, 20, 30 is 20 and that of 10, 30 is 20
  (fields of one point).
\<close>

theorem weighted_average_formula:
  "(2 \<le> length args \<and> (\<forall>a\<in>set args. length a = n) \<longrightarrow>
      compute_weighted_average_field args =
        Inr (map (\<lambda>i. (0.5 * hd args ! i + (\<Sum>a\<leftarrow>tl (butlast args). a ! i)
                         + 0.5 * last args ! i)
                       / (real (length (tl (butlast args))) + 1)) [0..<n]))
   \<and> compute_weighted_average_field [[10], [20], [30]] = Inr [20]
   \<and> compute_weighted_average_field [[10], [30]] = Inr [20]"
proof (intro conjI impI)
  assume "2 \<le> length args \<and> (\<forall>a\<in>set args. length a = n)"
  then show "compute_weighted_average_field args =
        Inr (map (\<lambda>i. (0.5 * hd args ! i + (\<Sum>a\<leftarrow>tl (butlast args). a ! i)
                         + 0.5 * last args ! i)
                       / (real (length (tl (butlast args))) + 1)) [0..<n])"
    using weighted_average_same_shape by blast
next
  show "compute_weighted_average_field [[10], [20], [30]] = Inr [20]"
    by (simp add: compute_weighted_average_field_def arr_add_def arr_mul_scalar_def
        arr_div_scalar_def)
next
  show "compute_weighted_average_field [[10], [30]] = Inr [20]"
    by (simp add: compute_weighted_average_field_def arr_add_def arr_mul_scalar_def
        arr_div_scalar_def)
qed

theorem weighted_average_formula_witness:
  "2 \<le> length [[1, 2], [3, 4], [5, 6], [7, 9 :: real]]
   \<and> list_all (\<lambda>a. length a = 2) [[1, 2], [3, 4], [5, 6], [7, 9 :: real]]
   \<and> compute_weighted_average_field [[1, 2], [3, 4], [5, 6], [7, 9]] = Inr [4, 31 / 6]"
  using weighted_average_formula [of "[[1, 2], [3, 4], [5, 6], [7, 9]]" 2]
  by (simp add: upt_rec)


section \<open>The local solar time\<close>



section \<open>The steps of a computation\<close>

lemma le_div_imp_mult_le:
  fixes d :: int
  assumes "0 < d" and "k \<le> n div d"
  shows "k * d \<le> n"
proof -
  have "k * d \<le> (n div d) * d" using assms by (simp add: mult_right_mono)
  moreover have "n = (n div d) * d + n mod d" by simp
  moreover have "0 \<le> n mod d" using assms(1) by simp
  ultimately show ?thesis by linarith
qed

lemma mult_le_imp_le_div:
  fixes d :: int
  assumes "0 < d" and "k * d \<le> n"
  shows "k \<le> n div d"
proof -
  have "(k * d) div d \<le> n div d" using assms by (intro zdiv_mono1)
  then show ?thesis using assms(1) by simp
qed

text \<open>
  With a positive step, \<open>range(a, b, d)\<close> lists the numbers \<open>a\<close>, \<open>a + d\<close>, \<open>a + 2d\<close>, ...
  below \<open>b\<close>: the members of \<open>[a..b - 1]\<close> at a multiple of \<open>d\<close> from \<open>a\<close>.
\<close>

lemma py_range_pos:
  assumes "0 < d"
  shows "py_range a b d = Inr (filter (\<lambda>x. d dvd (x - a)) [a..b - 1])"
proof -
  let ?n = "nat ((b - a + d - 1) div d)"
  let ?xs = "map (\<lambda>k. a + int k * d) [0..<?n]"
  let ?ys = "filter (\<lambda>x. d dvd (x - a)) [a..b - 1]"
  have "set ?xs = set ?ys"
  proof (intro set_eqI iffI)
    fix x assume "x \<in> set ?xs"
    then obtain k where k: "k < ?n" "x = a + int k * d" by auto
    from k(1) have "int k + 1 \<le> (b - a + d - 1) div d" by linarith
    then have "(int k + 1) * d \<le> b - a + d - 1"
      using assms by (rule le_div_imp_mult_le [rotated])
    then have "x \<le> b - 1" "a \<le> x" using k(2) assms by (auto simp: algebra_simps)
    then show "x \<in> set ?ys" using k(2) by auto
  next
    fix x assume "x \<in> set ?ys"
    then have x: "a \<le> x" "x \<le> b - 1" "d dvd (x - a)" by auto
    then obtain m where m: "x - a = d * m" by (auto simp: dvd_def)
    have "0 \<le> d * m" using x(1) m by linarith
    then have m0: "0 \<le> m" using assms by (simp add: zero_le_mult_iff)
    have "(m + 1) * d \<le> b - a + d - 1" using x(2) m by (auto simp: algebra_simps)
    then have "m + 1 \<le> (b - a + d - 1) div d" using assms by (intro mult_le_imp_le_div)
    then have "nat m < ?n" using m0 by linarith
    moreover have "x = a + int (nat m) * d" using m m0 by (simp add: algebra_simps)
    ultimately have "x \<in> (\<lambda>k. a + int k * d) ` {0..<?n}"
      by (intro image_eqI [where x = "nat m"]) auto
    then show "x \<in> set ?xs" by simp
  qed
  moreover have "sorted ?xs" using assms by (auto simp: sorted_iff_nth_mono mult_right_mono)
  moreover have "distinct ?xs" using assms by (auto simp: distinct_map inj_on_def)
  moreover have "sorted ?ys" using sorted_upto sorted_wrt_filter by blast
  moreover have "distinct ?ys" by simp
  ultimately have "?xs = ?ys" by (intro sorted_distinct_set_unique)
  then show ?thesis using assms by (simp add: py_range_def)
qed

text \<open>
  Claim C3. For an accumulated predictand and the kind \<open>24H_SOLAR_RADIATION\<close>, the steps
  of a case with lead time \<open>s\<close> are \<open>[s, s + acc]\<close> when \<open>acc = 24\<close>, otherwise \<open>[0, 24]\<close>
  when \<open>s + acc \<le> 24\<close>, otherwise \<open>[s + acc - 24, s + acc]\<close>. With \<open>acc = 24\<close> and \<open>s = 6\<close>
  they are \<open>[6, 30]\<close>; with \<open>acc = 6\<close>, \<open>s = 20\<close> gives \<open>[2, 26]\<close> and \<open>s = 10\<close> gives
  \<open>[0, 24]\<close>.
\<close>

theorem steps_solar_radiation:
  "(is_accumulated (predictand config) \<and> field computation = ''24H_SOLAR_RADIATION'' \<longrightarrow>
      steps config computation s =
        Inr (if accumulation (predictand config) = 24
             then [s, s + accumulation (predictand config)]
             else if s + accumulation (predictand config) \<le> 24 then [0, 24]
             else [s + accumulation (predictand config) - 24,
                   s + accumulation (predictand config)]))
   \<and> (is_accumulated (predictand config) \<and> field computation = ''24H_SOLAR_RADIATION''
        \<and> accumulation (predictand config) = 24 \<longrightarrow>
      steps config computation 6 = Inr [6, 30])
   \<and> (is_accumulated (predictand config) \<and> field computation = ''24H_SOLAR_RADIATION''
        \<and> accumulation (predictand config) = 6 \<longrightarrow>
      steps config computation 20 = Inr [2, 26] \<and> steps config computation 10 = Inr [0, 24])"
  by (simp add: steps_def Let_def)

theorem steps_solar_radiation_witness:
  "is_accumulated (predictand (example_config True 6 []))
   \<and> field (example_computation ''sr'' ''24H_SOLAR_RADIATION'' [''ssr''] True)
       = ''24H_SOLAR_RADIATION''
   \<and> accumulation (predictand (example_config True 6 [])) = 6
   \<and> steps (example_config True 6 [])
        (example_computation ''sr'' ''24H_SOLAR_RADIATION'' [''ssr''] True) 20 = Inr [2, 26]
   \<and> steps (example_config True 24 [])
        (example_computation ''sr'' ''24H_SOLAR_RADIATION'' [''ssr''] True) 6 = Inr [6, 30]"
  using steps_solar_radiation
      [of "example_config True 6 []"
          "example_computation ''sr'' ''24H_SOLAR_RADIATION'' [''ssr''] True" 20]
    steps_solar_radiation
      [of "example_config True 24 []"
          "example_computation ''sr'' ''24H_SOLAR_RADIATION'' [''ssr''] True" 6]
  by (simp add: example_config_def example_computation_def)

text \<open>
  Claim C7, as stated, gives \<open>[s, s + acc]\<close> to every kind other than the two averages,
  the maximum and the minimum. The kind \<open>24H_SOLAR_RADIATION\<close> is one of those, and with
  \<open>acc = 6\<close> and \<open>s = 10\<close> its steps are \<open>[0, 24]\<close>, not \<open>[10, 16]\<close>.
\<close>

theorem steps_other_kinds_counterexample:
  "\<not> (\<forall>config computation s.
        is_accumulated (predictand config)
        \<and> field computation \<notin> {''WEIGHTED_AVERAGE_FIELD'', ''AVERAGE_FIELD'',
                                 ''MAXIMUM_FIELD'', ''MINIMUM_FIELD''}
        \<longrightarrow> steps config computation s = Inr [s, s + accumulation (predictand config)])"
proof
  assume a: "\<forall>config computation s.
        is_accumulated (predictand config)
        \<and> field computation \<notin> {''WEIGHTED_AVERAGE_FIELD'', ''AVERAGE_FIELD'',
                                 ''MAXIMUM_FIELD'', ''MINIMUM_FIELD''}
        \<longrightarrow> steps config computation s = Inr [s, s + accumulation (predictand config)]"
  have "steps (example_config True 6 [])
          (example_computation ''sr'' ''24H_SOLAR_RADIATION'' [''ssr''] True) 10 = Inr [10, 16]"
    using a [rule_format, of "example_config True 6 []"
               "example_computation ''sr'' ''24H_SOLAR_RADIATION'' [''ssr''] True" 10]
    by (simp add: example_config_def example_computation_def)
  then show False
    by (simp add: steps_def example_config_def example_computation_def)
qed

text \<open>
  Claim C7, amended. The steps are \<open>[s]\<close> when the predictand is not accumulated. For an
  accumulated predictand and a positive sampling interval \<open>d\<close>: the two averages take
  \<open>s\<close>, \<open>s + d\<close>, \<open>s + 2d\<close>, ... up to \<open>s + acc\<close> (the members of \<open>[s..s + acc]\<close> at a multiple
  of \<open>d\<close> from \<open>s\<close>, which are the multiples of \<open>d\<close> in the window when \<open>s\<close> is one); the
  maximum and the minimum take the same from \<open>s + d\<close> on, without \<open>s\<close>. Every kind other
  than these four and \<open>24H_SOLAR_RADIATION\<close> takes \<open>[s, s + acc]\<close>.
\<close>

theorem steps_by_kind:
  "(\<not> is_accumulated (predictand config) \<longrightarrow> steps config computation s = Inr [s])
   \<and> (is_accumulated (predictand config)
        \<and> field computation \<in> {''WEIGHTED_AVERAGE_FIELD'', ''AVERAGE_FIELD''}
        \<and> 0 < sampling_interval (predictors config) \<longrightarrow>
      steps config computation s =
        Inr (filter (\<lambda>x. sampling_interval (predictors config) dvd (x - s))
               [s..s + accumulation (predictand config)]))
   \<and> (is_accumulated (predictand config)
        \<and> field computation \<in> {''WEIGHTED_AVERAGE_FIELD'', ''AVERAGE_FIELD''}
        \<and> 0 < sampling_interval (predictors config)
        \<and> sampling_interval (predictors config) dvd s \<longrightarrow>
      steps config computation s =
        Inr (filter (\<lambda>x. sampling_interval (predictors config) dvd x)
               [s..s + accumulation (predictand config)]))
   \<and> (is_accumulated (predictand config)
        \<and> field computation \<in> {''MAXIMUM_FIELD'', ''MINIMUM_FIELD''}
        \<and> 0 < sampling_interval (predictors config) \<longrightarrow>
      steps config computation s =
        Inr (filter (\<lambda>x. sampling_interval (predictors config) dvd (x - s))
               [s + sampling_interval (predictors config)..s + accumulation (predictand config)]))
   \<and> (is_accumulated (predictand config)
        \<and> field computation \<notin> {''24H_SOLAR_RADIATION'', ''WEIGHTED_AVERAGE_FIELD'',
                                 ''AVERAGE_FIELD'', ''MAXIMUM_FIELD'', ''MINIMUM_FIELD''} \<longrightarrow>
      steps config computation s = Inr [s, s + accumulation (predictand config)])"
proof (intro conjI impI)
  assume "\<not> is_accumulated (predictand config)"
  then show "steps config computation s = Inr [s]" by (simp add: steps_def)
next
  assume a: "is_accumulated (predictand config)
        \<and> field computation \<in> {''WEIGHTED_AVERAGE_FIELD'', ''AVERAGE_FIELD''}
        \<and> 0 < sampling_interval (predictors config)"
  then have "steps config computation s =
      py_range s (s + accumulation (predictand config) + 1) (sampling_interval (predictors config))"
    by (auto simp: steps_def Let_def)
  then show "steps config computation s =
        Inr (filter (\<lambda>x. sampling_interval (predictors config) dvd (x - s))
               [s..s + accumulation (predictand config)])"
    using a by (simp add: py_range_pos)
next
  assume a: "is_accumulated (predictand config)
        \<and> field computation \<in> {''WEIGHTED_AVERAGE_FIELD'', ''AVERAGE_FIELD''}
        \<and> 0 < sampling_interval (predictors config)
        \<and> sampling_interval (predictors config) dvd s"
  then have "steps config computation s =
      py_range s (s + accumulation (predictand config) + 1) (sampling_interval (predictors config))"
    by (auto simp: steps_def Let_def)
  moreover have "\<And>x. sampling_interval (predictors config) dvd (x - s)
                    \<longleftrightarrow> sampling_interval (predictors config) dvd x"
    using a by (simp add: dvd_diff_left_iff)
  ultimately show "steps config computation s =
        Inr (filter (\<lambda>x. sampling_interval (predictors config) dvd x)
               [s..s + accumulation (predictand config)])"
    using a by (simp add: py_range_pos)
next
  assume a: "is_accumulated (predictand config)
        \<and> field computation \<in> {''MAXIMUM_FIELD'', ''MINIMUM_FIELD''}
        \<and> 0 < sampling_interval (predictors config)"
  then have "steps config computation s =
      py_range (s + sampling_interval (predictors config))
        (s + accumulation (predictand config) + 1) (sampling_interval (predictors config))"
    by (auto simp: steps_def Let_def)
  moreover have "\<And>x. sampling_interval (predictors config)
                        dvd (x - (s + sampling_interval (predictors config)))
                    \<longleftrightarrow> sampling_interval (predictors config) dvd (x - s)"
    by (simp add: diff_diff_eq [symmetric] dvd_diff_left_iff)
  ultimately show "steps config computation s =
        Inr (filter (\<lambda>x. sampling_interval (predictors config) dvd (x - s))
               [s + sampling_interval (predictors config)..s + accumulation (predictand config)])"
    using a by (simp add: py_range_pos)
next
  assume "is_accumulated (predictand config)
        \<and> field computation \<notin> {''24H_SOLAR_RADIATION'', ''WEIGHTED_AVERAGE_FIELD'',
                                 ''AVERAGE_FIELD'', ''MAXIMUM_FIELD'', ''MINIMUM_FIELD''}"
  then show "steps config computation s = Inr [s, s + accumulation (predictand config)]"
    by (simp add: steps_def Let_def)
qed

theorem steps_by_kind_witness:
  "\<not> is_accumulated (predictand (example_config False 0 []))
   \<and> steps (example_config False 0 []) (example_computation ''t'' ''AVERAGE_FIELD'' [''t''] True) 12
       = Inr [12]
   \<and> is_accumulated (predictand (example_config True 12 []))
   \<and> 0 < sampling_interval (predictors (example_config True 12 []))
   \<and> steps (example_config True 12 [])
        (example_computation ''t'' ''WEIGHTED_AVERAGE_FIELD'' [''t''] True) 3 = Inr [3, 9, 15]
   \<and> sampling_interval (predictors (example_config True 12 [])) dvd 6
   \<and> steps (example_config True 12 [])
        (example_computation ''t'' ''AVERAGE_FIELD'' [''t''] True) 6 = Inr [6, 12, 18]
   \<and> steps (example_config True 12 [])
        (example_computation ''t'' ''MAXIMUM_FIELD'' [''t''] True) 3 = Inr [9, 15]
   \<and> steps (example_config True 12 [])
        (example_computation ''t'' ''ACCUMULATED_FIELD'' [''t''] True) 3 = Inr [3, 15]"
  using steps_by_kind [of "example_config False 0 []"
          "example_computation ''t'' ''AVERAGE_FIELD'' [''t''] True" 12]
    steps_by_kind [of "example_config True 12 []"
          "example_computation ''t'' ''WEIGHTED_AVERAGE_FIELD'' [''t''] True" 3]
    steps_by_kind [of "example_config True 12 []"
          "example_computation ''t'' ''AVERAGE_FIELD'' [''t''] True" 6]
    steps_by_kind [of "example_config True 12 []"
          "example_computation ''t'' ''MAXIMUM_FIELD'' [''t''] True" 3]
    steps_by_kind [of "example_config True 12 []"
          "example_computation ''t'' ''ACCUMULATED_FIELD'' [''t''] True" 3]
  by (simp add: example_config_def example_computation_def)

section \<open>The partition of the computations\<close>

lemma sorted_bool_key_split:
  fixes key :: "'a \<Rightarrow> bool"
  shows "sorted (map key zs) \<Longrightarrow> zs = filter (\<lambda>x. \<not> key x) zs @ filter key zs"
  by (induction zs) auto

lemma sort_key_bool:
  fixes key :: "'a \<Rightarrow> bool"
  shows "sort_key key xs = filter (\<lambda>x. \<not> key x) xs @ filter key xs"
proof -
  have "sort_key key xs = filter (\<lambda>x. \<not> key x) (sort_key key xs) @ filter key (sort_key key xs)"
    by (rule sorted_bool_key_split) (rule sorted_sort_key)
  moreover have "filter (\<lambda>x. \<not> key x) (sort_key key xs) = filter (\<lambda>x. \<not> key x) xs"
    using sort_key_stable [of key False xs] by simp
  moreover have "filter key (sort_key key xs) = filter key xs"
    using sort_key_stable [of key True xs] by simp
  ultimately show ?thesis by simp
qed

lemma sorted_reverse_bool:
  "sorted_reverse key xs = filter key xs @ filter (\<lambda>x. \<not> key x) xs"
  by (simp add: sorted_reverse_def sort_key_bool rev_filter)

text \<open>
  Claim C5. A computation is derived exactly when it is configured, one of its input
  codes is outside the raw predictor codes, it is post-processed and its kind is not
  \<open>LOCAL_SOLAR_TIME\<close>. Every other configured computation whose kind is not
  \<open>LOCAL_SOLAR_TIME\<close> is base. The base list is the configured order of these with the
  reference computations first and the others after them, each group in configured
  order.
\<close>

theorem partition_computations:
  "(c \<in> set (derived_computations config) \<longleftrightarrow>
      c \<in> set (computations config)
      \<and> (\<exists>i\<in>set (inputs c). i \<notin> set (codes (predictors config)))
      \<and> isPostProcessed c
      \<and> field c \<noteq> ''LOCAL_SOLAR_TIME'')
   \<and> (c \<in> set (base_computations config) \<longleftrightarrow>
      c \<in> set (computations config)
      \<and> c \<notin> set (derived_computations config)
      \<and> field c \<noteq> ''LOCAL_SOLAR_TIME'')
   \<and> base_computations config =
       filter (is_reference config)
         (filter (\<lambda>c. c \<notin> set (derived_computations config) \<and> field c \<noteq> ''LOCAL_SOLAR_TIME'')
            (computations config))
       @ filter (\<lambda>c. \<not> is_reference config c)
           (filter (\<lambda>c. c \<notin> set (derived_computations config) \<and> field c \<noteq> ''LOCAL_SOLAR_TIME'')
              (computations config))"
  by (auto simp: derived_computations_def base_computations_def sorted_reverse_bool)

section \<open>What the loops of a case leave unchanged\<close>

lemma chunks_append: "chunks (xs @ ys) = chunks xs @ chunks ys"
  by (induction xs rule: chunks.induct) auto

lemma files_read_append: "files_read (xs @ ys) = files_read xs @ files_read ys"
  by (induction xs rule: files_read.induct) auto

lemma read_fieldsets_ok:
  "map (from_path env) ps = map Inr fs \<Longrightarrow>
   read_fieldsets env ps acc tr = (Some (acc @ fs), tr @ map ReadForecast ps)"
proof (induction ps arbitrary: fs acc tr)
  case Nil
  then show ?case by simp
next
  case (Cons p ps)
  then obtain f fs' where fs: "fs = f # fs'" "from_path env p = Inr f"
    "map (from_path env) ps = map Inr fs'" by (cases fs) auto
  show ?case using Cons.IH [OF fs(3)] fs by simp
qed

lemma read_fieldsets_fail:
  "map (from_path env) ok = map Inr fs \<Longrightarrow> from_path env bad = Inl e \<Longrightarrow>
   read_fieldsets env (ok @ bad # rest) acc tr =
     (None, tr @ map ReadForecast ok @
              [ReadForecast bad,
               if e = IOError then LogWarning (ForecastFileNotFound bad)
               else LogError (ForecastReadFailed bad)])"
proof (induction ok arbitrary: fs acc tr)
  case Nil
  then show ?case by simp
next
  case (Cons p ps)
  then obtain f fs' where fs: "fs = f # fs'" "from_path env p = Inr f"
    "map (from_path env) ps = map Inr fs'" by (cases fs) auto
  show ?case using Cons.IH [OF fs(3) Cons.prems(2)] fs by simp
qed

lemma read_fieldsets_chunks:
  "chunks (snd (read_fieldsets env ps acc tr)) = chunks tr"
  by (induction ps arbitrary: acc tr) (auto simp: chunks_append split: sum.splits)

lemma base_step_frame:
  assumes "base_step env config m c obs computation v = Continue v'
           \<or> base_step env config m c obs computation v = Break v'"
  shows "counter_used_FC v' = counter_used_FC v \<and> obsTOT v' = obsTOT v
         \<and> obsUSED v' = obsUSED v \<and> chunks (trace v') = chunks (trace v)"
proof -
  have tr: "\<And>ps r tr. read_fieldsets env ps [] (trace v) = (r, tr) \<Longrightarrow>
              chunks tr = chunks (trace v)"
    using read_fieldsets_chunks [of env _ "[]" "trace v"] by (metis snd_conv)
  show ?thesis
    using assms
    by (auto simp: base_step_def Let_def chunks_append dest!: tr
             split: list.splits sum.splits option.splits if_splits prod.splits)
qed


lemma base_loop_frame:
  "base_loop env config m c obs cs v = Continue v'
     \<or> base_loop env config m c obs cs v = Break v' \<Longrightarrow>
   counter_used_FC v' = counter_used_FC v \<and> obsTOT v' = obsTOT v
   \<and> obsUSED v' = obsUSED v \<and> chunks (trace v') = chunks (trace v)"
proof (induction cs arbitrary: v)
  case Nil
  then show ?case by simp
next
  case (Cons computation cs)
  show ?case
  proof (cases "base_step env config m c obs computation v")
    case (Continue v1)
    then have "base_loop env config m c obs cs v1 = Continue v'
               \<or> base_loop env config m c obs cs v1 = Break v'"
      using Cons.prems by simp
    from Cons.IH [OF this] base_step_frame [of env config m c obs computation v v1] Continue
    show ?thesis by simp
  next
    case (Break v1)
    then have "v1 = v'" using Cons.prems by simp
    then show ?thesis
      using base_step_frame [of env config m c obs computation v v1] Break by simp
  next
    case (Raise e)
    then show ?thesis using Cons.prems by simp
  qed
qed

lemma derived_step_frame:
  "derived_step env config obs computation v = Inr v' \<Longrightarrow>
   \<exists>a. v' = append_result env computation a v"
  by (auto simp: derived_step_def split: option.splits list.splits sum.splits if_splits pyval.splits)

lemma derived_loop_frame:
  "derived_loop env config obs cs v = Inr v' \<Longrightarrow>
   counter_used_FC v' = counter_used_FC v \<and> obsTOT v' = obsTOT v
   \<and> obsUSED v' = obsUSED v \<and> trace v' = trace v \<and> mask v' = mask v
   \<and> ref_geopoints v' = ref_geopoints v"
proof (induction cs arbitrary: v)
  case Nil
  then show ?case by simp
next
  case (Cons computation cs)
  then obtain v1 where v1: "derived_step env config obs computation v = Inr v1"
    "derived_loop env config obs cs v1 = Inr v'"
    by (auto split: sum.splits)
  from derived_step_frame [OF v1(1)] Cons.IH [OF v1(2)]
  show ?case by (auto simp: append_result_def)
qed

lemma assemble_rows_frame:
  "assemble_rows env config c obs v = Inr v' \<Longrightarrow>
   counter_used_FC v' = counter_used_FC v \<and> obsTOT v' = obsTOT v \<and> mask v' = mask v
   \<and> ref_geopoints v' = ref_geopoints v"
  by (auto simp: assemble_rows_def Let_def split: option.splits sum.splits if_splits)

lemma evaluate_case_counter:
  assumes "evaluate_case env config m v c = Inr v'"
  shows "counter_used_FC v' = counter_used_FC v"
proof (cases "read_geopoints env (obs_path config c)")
  case (Inl e)
  then show ?thesis using assms by (auto simp: evaluate_case_def Let_def)
next
  case (Inr obs)
  show ?thesis
  proof (cases "obs = []")
    case True
    then show ?thesis using assms Inr by (auto simp: evaluate_case_def Let_def)
  next
    case False
    define v0 where "v0 = v\<lparr>trace := trace v @ [ReadObservations (obs_path config c)],
        obsTOT := obsTOT v + int (length obs), computations_cache := Map.empty,
        computations_result := []\<rparr>"
    have ev: "evaluate_case env config m v c =
       (case base_loop env config m c obs (base_computations config) v0 of
          Raise e \<Rightarrow> Inl e
        | Break v \<Rightarrow> Inr v
        | Continue v \<Rightarrow>
            (case derived_loop env config obs (derived_computations config) v of
               Inl e \<Rightarrow> Inl e
             | Inr v \<Rightarrow> assemble_rows env config c obs v))"
      using Inr False by (simp add: evaluate_case_def Let_def v0_def)
    have c0: "counter_used_FC v0 = counter_used_FC v" by (simp add: v0_def)
    show ?thesis
    proof (cases "base_loop env config m c obs (base_computations config) v0")
      case (Continue v1)
      then obtain v2 where v2: "derived_loop env config obs (derived_computations config) v1 = Inr v2"
        "assemble_rows env config c obs v2 = Inr v'"
        using assms ev by (auto split: sum.splits)
      from base_loop_frame [of env config m c obs "base_computations config" v0 v1] Continue
        derived_loop_frame [OF v2(1)] assemble_rows_frame [OF v2(2)] c0
      show ?thesis by simp
    next
      case (Break v1)
      then have "v1 = v'" using assms ev by simp
      then show ?thesis
        using base_loop_frame [of env config m c obs "base_computations config" v0 v1] Break c0 by simp
    next
      case (Raise e)
      then show ?thesis using assms ev by simp
    qed
  qed
qed

lemma run_case_duplicate:
  "counter_used_FC v (forecast config c) = Some k \<Longrightarrow>
   run_case env config m v c = Inr (v\<lparr>trace := trace v @ [LogWarning (AlreadyConsidered k)]\<rparr>)"
  by (simp add: run_case_def)

lemma run_case_counter_mono:
  assumes "run_case env config m v c = Inr v'" and "counter_used_FC v key = Some k"
  shows "counter_used_FC v' key = Some k"
proof (cases "counter_used_FC v (forecast config c)")
  case (Some earlier)
  then show ?thesis using assms by (auto simp: run_case_def)
next
  case None
  then have ne: "key \<noteq> forecast config c" using assms(2) by auto
  show ?thesis
  proof (cases "curr_date c < date_start (parameters config)
                \<or> curr_date c > date_end (parameters config)")
    case True
    then show ?thesis using assms None by (auto simp: run_case_def)
  next
    case False
    then have "evaluate_case env config m
        (v\<lparr>counter_used_FC := (counter_used_FC v)(forecast config c \<mapsto> case_number c)\<rparr>) c = Inr v'"
      using assms(1) None by (simp add: run_case_def)
    from evaluate_case_counter [OF this] show ?thesis using ne assms(2) by simp
  qed
qed

lemma run_cases_counter_mono:
  "run_cases env config m v cs = Inr v' \<Longrightarrow> counter_used_FC v key = Some k \<Longrightarrow>
   counter_used_FC v' key = Some k"
proof (induction cs arbitrary: v)
  case Nil
  then show ?case by simp
next
  case (Cons c cs)
  then obtain v1 where v1: "run_case env config m v c = Inr v1"
    "run_cases env config m v1 cs = Inr v'" by (auto split: sum.splits)
  from Cons.IH [OF v1(2) run_case_counter_mono [OF v1(1) Cons.prems(2)]] show ?case .
qed

section \<open>The register of the forecasts already used\<close>

lemma run_case_registers:
  assumes "counter_used_FC v (forecast config c) = None"
    and "date_start (parameters config) \<le> curr_date c"
    and "curr_date c \<le> date_end (parameters config)"
    and "run_case env config m v c = Inr v'"
  shows "counter_used_FC v' (forecast config c) = Some (case_number c)"
proof -
  have "evaluate_case env config m
      (v\<lparr>counter_used_FC := (counter_used_FC v)(forecast config c \<mapsto> case_number c)\<rparr>) c = Inr v'"
    using assms by (simp add: run_case_def)
  from evaluate_case_counter [OF this] show ?thesis by simp
qed

lemma forecast_date: "forecast config c' = forecast config c \<Longrightarrow> curr_date c' = curr_date c"
  by (auto simp: forecast_def split: if_splits)

lemma run_case_out_of_period:
  "counter_used_FC v (forecast config c) = None \<Longrightarrow>
   curr_date c < date_start (parameters config) \<or> date_end (parameters config) < curr_date c \<Longrightarrow>
   run_case env config m v c = Inr (v\<lparr>trace := trace v @ [LogWarning OutOfCalibrationPeriod]\<rparr>)"
  by (simp add: run_case_def)

text \<open>
  Claim C6. A case that passes the duplicate check and the check of the calibration
  period is entered in \<open>counter_used_FC\<close> under its forecast key, whatever becomes of it.
  Once a key is entered, it stays entered through any number of further cases, and a
  later case with the same key ends at the duplicate check: the state changes by one
  warning in the log, so no file is read, no chunk reaches the serializer, and \<open>obsTOT\<close>
  and \<open>obsUSED\<close> keep their values. So no two cases with one key are both evaluated.
\<close>

theorem duplicate_case_skipped:
  "(counter_used_FC v (forecast config c1) = None
      \<and> date_start (parameters config) \<le> curr_date c1
      \<and> curr_date c1 \<le> date_end (parameters config)
      \<and> run_case env config m v c1 = Inr v1 \<longrightarrow>
    counter_used_FC v1 (forecast config c1) = Some (case_number c1))
   \<and> (counter_used_FC v1 (forecast config c1) = Some k
      \<and> run_cases env config m v1 between = Inr v2
      \<and> forecast config c2 = forecast config c1 \<longrightarrow>
    run_case env config m v2 c2 = Inr (v2\<lparr>trace := trace v2 @ [LogWarning (AlreadyConsidered k)]\<rparr>)
    \<and> files_read (trace v2 @ [LogWarning (AlreadyConsidered k)]) = files_read (trace v2)
    \<and> chunks (trace v2 @ [LogWarning (AlreadyConsidered k)]) = chunks (trace v2)
    \<and> obsTOT (v2\<lparr>trace := trace v2 @ [LogWarning (AlreadyConsidered k)]\<rparr>) = obsTOT v2
    \<and> obsUSED (v2\<lparr>trace := trace v2 @ [LogWarning (AlreadyConsidered k)]\<rparr>) = obsUSED v2)"
proof (intro conjI impI)
  assume "counter_used_FC v (forecast config c1) = None
      \<and> date_start (parameters config) \<le> curr_date c1
      \<and> curr_date c1 \<le> date_end (parameters config)
      \<and> run_case env config m v c1 = Inr v1"
  then show "counter_used_FC v1 (forecast config c1) = Some (case_number c1)"
    using run_case_registers by blast
next
  assume a: "counter_used_FC v1 (forecast config c1) = Some k
      \<and> run_cases env config m v1 between = Inr v2
      \<and> forecast config c2 = forecast config c1"
  then have "counter_used_FC v2 (forecast config c2) = Some k"
    using run_cases_counter_mono [of env config m v1 between v2 "forecast config c1" k] by simp
  then show "run_case env config m v2 c2 =
      Inr (v2\<lparr>trace := trace v2 @ [LogWarning (AlreadyConsidered k)]\<rparr>)"
    by (rule run_case_duplicate)
qed (simp_all add: files_read_append chunks_append)

theorem duplicate_case_skipped_witness:
  "counter_used_FC (initial_vars :: array Vars)
       (forecast (example_config True 6 example_computations) (example_case 1 1)) = None
   \<and> date_start (parameters (example_config True 6 example_computations))
        \<le> curr_date (example_case 1 1)
   \<and> curr_date (example_case 1 1)
        \<le> date_end (parameters (example_config True 6 example_computations))
   \<and> forecast (example_config True 6 example_computations) (example_case 1 3)
       = forecast (example_config True 6 example_computations) (example_case 1 1)
   \<and> (case run_cases example_env (example_config True 6 example_computations) 3 initial_vars
              [example_case 1 1, example_case 3 2] of
         Inl e \<Rightarrow> False
       | Inr v2 \<Rightarrow>
           counter_used_FC v2
             (forecast (example_config True 6 example_computations) (example_case 1 1)) = Some 1
           \<and> run_case example_env (example_config True 6 example_computations) 3 v2
               (example_case 1 3)
             = Inr (v2\<lparr>trace := trace v2 @ [LogWarning (AlreadyConsidered 1)]\<rparr>))"
proof -
  let ?cfg = "example_config True 6 example_computations"
  have h1: "counter_used_FC (initial_vars :: array Vars) (forecast ?cfg (example_case 1 1)) = None"
    by (simp add: initial_vars_def)
  have h2: "date_start (parameters ?cfg) \<le> curr_date (example_case 1 1)"
    and h3: "curr_date (example_case 1 1) \<le> date_end (parameters ?cfg)"
    by (simp_all add: example_config_def example_case_def)
  have h4: "forecast ?cfg (example_case 1 3) = forecast ?cfg (example_case 1 1)"
    by (simp add: forecast_def example_case_def)
  have "case run_case example_env ?cfg 3 initial_vars (example_case 1 1) of
          Inl e \<Rightarrow> False | Inr v1 \<Rightarrow> True"
    by code_simp
  then obtain v1 where r1: "run_case example_env ?cfg 3 initial_vars (example_case 1 1) = Inr v1"
    by (auto split: sum.splits)
  have "case run_cases example_env ?cfg 3 initial_vars [example_case 1 1, example_case 3 2] of
          Inl e \<Rightarrow> False | Inr v2 \<Rightarrow> True"
    by code_simp
  then obtain v2 where r2: "run_cases example_env ?cfg 3 initial_vars
      [example_case 1 1, example_case 3 2] = Inr v2"
    by (auto split: sum.splits)
  then have r2': "run_cases example_env ?cfg 3 v1 [example_case 3 2] = Inr v2"
    using r1 by simp
  have reg: "counter_used_FC v1 (forecast ?cfg (example_case 1 1)) = Some 1"
    using duplicate_case_skipped [of initial_vars ?cfg "example_case 1 1" example_env 3 v1]
      h1 h2 h3 r1 by (simp add: example_case_def)
  have "run_case example_env ?cfg 3 v2 (example_case 1 3)
          = Inr (v2\<lparr>trace := trace v2 @ [LogWarning (AlreadyConsidered 1)]\<rparr>)"
    using duplicate_case_skipped [of initial_vars ?cfg "example_case 1 1" example_env 3 v1 1
        "[example_case 3 2]" v2 "example_case 1 3"]
      reg r2' h4 by blast
  moreover have "counter_used_FC v2 (forecast ?cfg (example_case 1 1)) = Some 1"
    using run_cases_counter_mono [OF r2' reg] .
  ultimately show ?thesis using h1 h2 h3 h4 r2 by simp
qed


text \<open>
  Claim C9. A case that passes the duplicate check and the check of the calibration
  period is evaluated on a state that already holds its key: the reading of the
  observation file, and all that follows, starts from that state, and leaves
  \<open>counter_used_FC\<close> as it is. So when the observation file is missing, unreadable or
  empty the key is entered, and after any outcome that lets the run go on (a forecast
  file missing or unreadable and an exhausted retention among them) a later case with the
  same key is skipped as already considered. A case outside the calibration period enters
  nothing; a later case with its key is not met by the duplicate check (it is outside the
  period as well, its date being part of the key).
\<close>

theorem registration_before_reading:
  "(counter_used_FC v (forecast config c) = None
      \<and> date_start (parameters config) \<le> curr_date c
      \<and> curr_date c \<le> date_end (parameters config) \<longrightarrow>
    run_case env config m v c =
      evaluate_case env config m
        (v\<lparr>counter_used_FC := (counter_used_FC v)(forecast config c \<mapsto> case_number c)\<rparr>) c
    \<and> (\<forall>e. read_geopoints env (obs_path config c) = Inl e \<longrightarrow>
          run_case env config m v c =
            Inr (v\<lparr>counter_used_FC := (counter_used_FC v)(forecast config c \<mapsto> case_number c),
                   trace := trace v @
                     [ReadObservations (obs_path config c),
                      if e = IOError then LogWarning (ObservationFileNotFound (obs_path config c))
                      else LogError (ObservationReadError (obs_path config c))]\<rparr>))
    \<and> (read_geopoints env (obs_path config c) = Inr [] \<longrightarrow>
          run_case env config m v c =
            Inr (v\<lparr>counter_used_FC := (counter_used_FC v)(forecast config c \<mapsto> case_number c),
                   trace := trace v @
                     [ReadObservations (obs_path config c),
                      LogWarning (NoObservationInFile (obs_path config c))]\<rparr>))
    \<and> (\<forall>v' c'. run_case env config m v c = Inr v' \<and> forecast config c' = forecast config c \<longrightarrow>
          counter_used_FC v' (forecast config c) = Some (case_number c)
          \<and> run_case env config m v' c' =
              Inr (v'\<lparr>trace := trace v' @ [LogWarning (AlreadyConsidered (case_number c))]\<rparr>)))
   \<and> (\<forall>v1 v2. evaluate_case env config m v1 c = Inr v2 \<longrightarrow>
         counter_used_FC v2 = counter_used_FC v1)
   \<and> (counter_used_FC v (forecast config c) = None
      \<and> (curr_date c < date_start (parameters config)
          \<or> date_end (parameters config) < curr_date c) \<longrightarrow>
    run_case env config m v c = Inr (v\<lparr>trace := trace v @ [LogWarning OutOfCalibrationPeriod]\<rparr>)
    \<and> (\<forall>c'. forecast config c' = forecast config c \<longrightarrow>
          run_case env config m (v\<lparr>trace := trace v @ [LogWarning OutOfCalibrationPeriod]\<rparr>) c' =
            Inr (v\<lparr>trace := trace v @ [LogWarning OutOfCalibrationPeriod,
                                          LogWarning OutOfCalibrationPeriod]\<rparr>)))"
proof (intro conjI impI allI)
  assume a: "counter_used_FC v (forecast config c) = None
      \<and> date_start (parameters config) \<le> curr_date c
      \<and> curr_date c \<le> date_end (parameters config)"
  then show ev: "run_case env config m v c =
      evaluate_case env config m
        (v\<lparr>counter_used_FC := (counter_used_FC v)(forecast config c \<mapsto> case_number c)\<rparr>) c"
    by (simp add: run_case_def)
  {
    fix e assume "read_geopoints env (obs_path config c) = Inl e"
    then show "run_case env config m v c =
            Inr (v\<lparr>counter_used_FC := (counter_used_FC v)(forecast config c \<mapsto> case_number c),
                   trace := trace v @
                     [ReadObservations (obs_path config c),
                      if e = IOError then LogWarning (ObservationFileNotFound (obs_path config c))
                      else LogError (ObservationReadError (obs_path config c))]\<rparr>)"
      unfolding ev by (simp add: evaluate_case_def Let_def)
  }
  {
    assume "read_geopoints env (obs_path config c) = Inr []"
    then show "run_case env config m v c =
            Inr (v\<lparr>counter_used_FC := (counter_used_FC v)(forecast config c \<mapsto> case_number c),
                   trace := trace v @
                     [ReadObservations (obs_path config c),
                      LogWarning (NoObservationInFile (obs_path config c))]\<rparr>)"
      unfolding ev by (simp add: evaluate_case_def Let_def)
  }
  {
    fix v' c'
    assume b: "run_case env config m v c = Inr v' \<and> forecast config c' = forecast config c"
    then show reg: "counter_used_FC v' (forecast config c) = Some (case_number c)"
      using a run_case_registers by blast
    then have "counter_used_FC v' (forecast config c') = Some (case_number c)" using b by simp
    then show "run_case env config m v' c' =
              Inr (v'\<lparr>trace := trace v' @ [LogWarning (AlreadyConsidered (case_number c))]\<rparr>)"
      by (rule run_case_duplicate)
  }
next
  fix v1 v2
  assume "evaluate_case env config m v1 c = Inr v2"
  then show "counter_used_FC v2 = counter_used_FC v1" by (rule evaluate_case_counter)
next
  assume a: "counter_used_FC v (forecast config c) = None
      \<and> (curr_date c < date_start (parameters config)
          \<or> date_end (parameters config) < curr_date c)"
  then show "run_case env config m v c =
      Inr (v\<lparr>trace := trace v @ [LogWarning OutOfCalibrationPeriod]\<rparr>)"
    using run_case_out_of_period by blast
  fix c'
  assume "forecast config c' = forecast config c"
  then have "counter_used_FC (v\<lparr>trace := trace v @ [LogWarning OutOfCalibrationPeriod]\<rparr>)
               (forecast config c') = None"
    and "curr_date c' < date_start (parameters config)
          \<or> date_end (parameters config) < curr_date c'"
    using a forecast_date [of config c' c] by simp_all
  from run_case_out_of_period [OF this]
  show "run_case env config m (v\<lparr>trace := trace v @ [LogWarning OutOfCalibrationPeriod]\<rparr>) c' =
            Inr (v\<lparr>trace := trace v @ [LogWarning OutOfCalibrationPeriod,
                                          LogWarning OutOfCalibrationPeriod]\<rparr>)"
    by simp
qed


theorem registration_before_reading_witness:
  "counter_used_FC (initial_vars :: array Vars)
       (forecast (example_config True 6 example_computations) (example_case 5 1)) = None
   \<and> date_start (parameters (example_config True 6 example_computations))
        \<le> curr_date (example_case 5 1)
   \<and> curr_date (example_case 5 1)
        \<le> date_end (parameters (example_config True 6 example_computations))
   \<and> read_geopoints example_env
        (obs_path (example_config True 6 example_computations) (example_case 5 1)) = Inl IOError
   \<and> forecast (example_config True 6 example_computations) (example_case 5 2)
       = forecast (example_config True 6 example_computations) (example_case 5 1)
   \<and> (case run_case example_env (example_config True 6 example_computations) 3 initial_vars
              (example_case 5 1) of
         Inl e \<Rightarrow> False
       | Inr v' \<Rightarrow>
           files_read (trace v') = [ObsPath ''tp'' (Some 6) 5 6]
           \<and> chunks (trace v') = []
           \<and> counter_used_FC v'
                (forecast (example_config True 6 example_computations) (example_case 5 1)) = Some 1
           \<and> run_case example_env (example_config True 6 example_computations) 3 v'
                (example_case 5 2)
              = Inr (v'\<lparr>trace := trace v' @ [LogWarning (AlreadyConsidered 1)]\<rparr>))
   \<and> date_end (parameters (example_config True 6 example_computations))
        < curr_date (example_case 11 1)
   \<and> run_case example_env (example_config True 6 example_computations) 3 initial_vars
        (example_case 11 1)
      = Inr (initial_vars\<lparr>trace := [LogWarning OutOfCalibrationPeriod]\<rparr>)"
proof -
  let ?cfg = "example_config True 6 example_computations"
  let ?v = "initial_vars :: array Vars"
  have h1: "counter_used_FC ?v (forecast ?cfg (example_case 5 1)) = None"
    by (simp add: initial_vars_def)
  have h2: "date_start (parameters ?cfg) \<le> curr_date (example_case 5 1)"
    and h3: "curr_date (example_case 5 1) \<le> date_end (parameters ?cfg)"
    by (simp_all add: example_config_def example_case_def)
  have p: "obs_path ?cfg (example_case 5 1) = ObsPath ''tp'' (Some 6) 5 6"
    by (simp add: obs_path_def DateVF_def HourVF_num_def validDateF_def example_config_def
        example_case_def)
  have h4: "read_geopoints example_env (obs_path ?cfg (example_case 5 1)) = Inl IOError"
    unfolding p by (simp add: example_env_def)
  have h5: "forecast ?cfg (example_case 5 2) = forecast ?cfg (example_case 5 1)"
    by (simp add: forecast_def example_case_def)
  note T = registration_before_reading [of ?v ?cfg "example_case 5 1" example_env 3]
  have r: "run_case example_env ?cfg 3 ?v (example_case 5 1) =
      Inr (?v\<lparr>counter_used_FC :=
                 (counter_used_FC ?v)(forecast ?cfg (example_case 5 1) \<mapsto> case_number (example_case 5 1)),
              trace := trace ?v @
                [ReadObservations (obs_path ?cfg (example_case 5 1)),
                 LogWarning (ObservationFileNotFound (obs_path ?cfg (example_case 5 1)))]\<rparr>)"
  proof -
    have "\<forall>e. read_geopoints example_env (obs_path ?cfg (example_case 5 1)) = Inl e \<longrightarrow>
          run_case example_env ?cfg 3 ?v (example_case 5 1) =
            Inr (?v\<lparr>counter_used_FC :=
                   (counter_used_FC ?v)(forecast ?cfg (example_case 5 1)
                      \<mapsto> case_number (example_case 5 1)),
                   trace := trace ?v @
                     [ReadObservations (obs_path ?cfg (example_case 5 1)),
                      if e = IOError
                      then LogWarning (ObservationFileNotFound (obs_path ?cfg (example_case 5 1)))
                      else LogError (ObservationReadError (obs_path ?cfg (example_case 5 1)))]\<rparr>)"
      using T h1 h2 h3 by blast
    from this [rule_format, OF h4] show ?thesis by simp
  qed
  have dup: "\<forall>v' c'. run_case example_env ?cfg 3 ?v (example_case 5 1) = Inr v'
          \<and> forecast ?cfg c' = forecast ?cfg (example_case 5 1) \<longrightarrow>
          counter_used_FC v' (forecast ?cfg (example_case 5 1)) = Some (case_number (example_case 5 1))
          \<and> run_case example_env ?cfg 3 v' c' =
              Inr (v'\<lparr>trace := trace v' @
                     [LogWarning (AlreadyConsidered (case_number (example_case 5 1)))]\<rparr>)"
    using T h1 h2 h3 by blast
  note d = dup [rule_format, OF conjI [OF r h5]]
  have h6: "counter_used_FC ?v (forecast ?cfg (example_case 11 1)) = None"
    by (simp add: initial_vars_def)
  have h7: "date_end (parameters ?cfg) < curr_date (example_case 11 1)"
    by (simp add: example_config_def example_case_def)
  have o: "run_case example_env ?cfg 3 ?v (example_case 11 1)
      = Inr (?v\<lparr>trace := trace ?v @ [LogWarning OutOfCalibrationPeriod]\<rparr>)"
    using registration_before_reading [of ?v ?cfg "example_case 11 1" example_env 3] h6 h7
    by simp
  have n: "case_number (example_case 5 1) = 1" by (simp add: example_case_def)
  have iv: "trace ?v = []" by (simp add: initial_vars_def)
  show ?thesis
    using h1 h2 h3 h4 h5 h7 o
    using d by (simp add: r p n iv)
qed


section \<open>A reference computation that retains nothing, or cannot be evaluated\<close>

lemma is_reference_inputs:
  "is_reference config computation \<Longrightarrow> inputs computation = [code (predictand config)]"
  by (cases "inputs computation") (auto simp: is_reference_def)

lemma evaluate_case_base_break:
  assumes "read_geopoints env (obs_path config c) = Inr obs" and "obs \<noteq> []"
    and "base_loop env config m c obs (base_computations config)
           (v\<lparr>trace := trace v @ [ReadObservations (obs_path config c)],
              obsTOT := obsTOT v + int (length obs),
              computations_cache := Map.empty, computations_result := []\<rparr>) = Break v'"
  shows "evaluate_case env config m v c = Inr v'"
  using assms by (simp add: evaluate_case_def Let_def)

lemma evaluate_case_base_raise:
  assumes "read_geopoints env (obs_path config c) = Inr obs" and "obs \<noteq> []"
    and "base_loop env config m c obs (base_computations config)
           (v\<lparr>trace := trace v @ [ReadObservations (obs_path config c)],
              obsTOT := obsTOT v + int (length obs),
              computations_cache := Map.empty, computations_result := []\<rparr>) = Raise e"
  shows "evaluate_case env config m v c = Inl e"
  using assms by (simp add: evaluate_case_def Let_def)

lemma base_step_retention_exhausted:
  assumes "is_accumulated (predictand config)"
    and "is_reference config computation" and "isPostProcessed computation"
    and "steps config computation (step_s c) = Inr sl"
    and "map (from_path env) (map (get_grib_path c (code (predictand config))) sl) = map Inr fs"
    and "computer_run env computation (map Fieldset fs) = Inr x"
    and "nearest_gridpoint env x obs = Inr g"
    and "geopoints_filter g (geopoints_ge g m) = []"
  shows "base_step env config m c obs computation v =
           Break (v\<lparr>trace := trace v
                      @ map ReadForecast (map (get_grib_path c (code (predictand config))) sl)
                      @ [LogWarning (NoObservationAboveMinimum (shortname computation) m)],
                    computations_cache := (computations_cache v)(shortname computation \<mapsto> x),
                    ref_code := Some (shortname computation),
                    mask := Some (geopoints_ge g m),
                    ref_geopoints := Some []\<rparr>)"
  using assms is_reference_inputs [OF assms(2)]
    read_fieldsets_ok [OF assms(5), of "[]" "trace v"]
  by (simp add: base_step_def Let_def)

lemma base_step_forecast_unreadable:
  assumes "inputs computation = predictor_code # others"
    and "steps config computation (step_s c) = Inr sl"
    and "map (get_grib_path c predictor_code) sl = ok @ bad # rest"
    and "map (from_path env) ok = map Inr fs"
    and "from_path env bad = Inl e"
  shows "base_step env config m c obs computation v =
           Break (v\<lparr>trace := trace v @ map ReadForecast ok @
                      [ReadForecast bad,
                       if e = IOError then LogWarning (ForecastFileNotFound bad)
                       else LogError (ForecastReadFailed bad)]\<rparr>)"
  using assms read_fieldsets_fail [OF assms(4) assms(5), of rest "[]" "trace v"]
  by (simp add: base_step_def Let_def)

lemma base_step_run_raises:
  assumes "inputs computation = predictor_code # others"
    and "steps config computation (step_s c) = Inr sl"
    and "map (from_path env) (map (get_grib_path c predictor_code) sl) = map Inr fs"
    and "computer_run env computation (map Fieldset fs) = Inl e"
  shows "base_step env config m c obs computation v = Raise e"
  using assms read_fieldsets_ok [OF assms(3), of "[]" "trace v"]
  by (simp add: base_step_def Let_def)


lemma chunks_ReadForecast: "chunks (map ReadForecast ps) = []"
  by (induction ps) auto

lemma chunks_ReadForecast_comp: "chunks (map (ReadForecast \<circ> f) xs) = []"
  by (induction xs) auto

lemma run_case_evaluates:
  "counter_used_FC v (forecast config c) = None \<Longrightarrow>
   date_start (parameters config) \<le> curr_date c \<Longrightarrow>
   curr_date c \<le> date_end (parameters config) \<Longrightarrow>
   run_case env config m v c =
     evaluate_case env config m
       (v\<lparr>counter_used_FC := (counter_used_FC v)(forecast config c \<mapsto> case_number c)\<rparr>) c"
  by (simp add: run_case_def)

lemma retention_exhausted_case:
  assumes "is_accumulated (predictand config)"
    and "counter_used_FC v (forecast config c) = None"
    and "date_start (parameters config) \<le> curr_date c"
    and "curr_date c \<le> date_end (parameters config)"
    and "read_geopoints env (obs_path config c) = Inr obs" and "obs \<noteq> []"
    and "base_computations config = computation # rest"
    and "is_reference config computation" and "isPostProcessed computation"
    and "steps config computation (step_s c) = Inr sl"
    and "map (from_path env) (map (get_grib_path c (code (predictand config))) sl) = map Inr fs"
    and "computer_run env computation (map Fieldset fs) = Inr x"
    and "nearest_gridpoint env x obs = Inr g"
    and "geopoints_filter g (geopoints_ge g m) = []"
  shows "\<exists>v'. run_case env config m v c = Inr v'
        \<and> trace v' = trace v @ [ReadObservations (obs_path config c)]
             @ map ReadForecast (map (get_grib_path c (code (predictand config))) sl)
             @ [LogWarning (NoObservationAboveMinimum (shortname computation) m)]
        \<and> chunks (trace v') = chunks (trace v)
        \<and> obsUSED v' = obsUSED v
        \<and> obsTOT v' = obsTOT v + int (length obs)
        \<and> mask v' = Some (geopoints_ge g m)
        \<and> ref_geopoints v' = Some []
        \<and> run_cases env config m v (c # cs) = run_cases env config m v' cs"
proof -
  let ?v1 = "v\<lparr>counter_used_FC := (counter_used_FC v)(forecast config c \<mapsto> case_number c)\<rparr>"
  let ?v0 = "?v1\<lparr>trace := trace ?v1 @ [ReadObservations (obs_path config c)],
                  obsTOT := obsTOT ?v1 + int (length obs),
                  computations_cache := Map.empty, computations_result := []\<rparr>"
  define v' where "v' = ?v0\<lparr>trace := trace ?v0
                    @ map ReadForecast (map (get_grib_path c (code (predictand config))) sl)
                    @ [LogWarning (NoObservationAboveMinimum (shortname computation) m)],
                  computations_cache := (computations_cache ?v0)(shortname computation \<mapsto> x),
                  ref_code := Some (shortname computation),
                  mask := Some (geopoints_ge g m),
                  ref_geopoints := Some []\<rparr>"
  have "base_step env config m c obs computation ?v0 = Break v'"
    unfolding v'_def
    by (rule base_step_retention_exhausted [OF assms(1) assms(8) assms(9) assms(10) assms(11)
          assms(12) assms(13) assms(14)])
  then have "base_loop env config m c obs (base_computations config) ?v0 = Break v'"
    using assms(7) by simp
  then have "evaluate_case env config m ?v1 c = Inr v'"
    using assms(5) assms(6) by (intro evaluate_case_base_break [where obs = obs]) simp_all
  then have r: "run_case env config m v c = Inr v'"
    using assms(2-4) by (simp add: run_case_evaluates)
  show ?thesis
    by (rule exI [of _ v']) (simp add: r v'_def chunks_append chunks_ReadForecast chunks_ReadForecast_comp)
qed

lemma forecast_unreadable_case:
  assumes "counter_used_FC v (forecast config c) = None"
    and "date_start (parameters config) \<le> curr_date c"
    and "curr_date c \<le> date_end (parameters config)"
    and "read_geopoints env (obs_path config c) = Inr obs" and "obs \<noteq> []"
    and "base_computations config = computation # rest"
    and "is_reference config computation"
    and "steps config computation (step_s c) = Inr sl"
    and "map (get_grib_path c (code (predictand config))) sl = ok @ bad # later"
    and "map (from_path env) ok = map Inr fs"
    and "from_path env bad = Inl e"
  shows "\<exists>v'. run_case env config m v c = Inr v'
        \<and> trace v' = trace v @ [ReadObservations (obs_path config c)]
             @ map ReadForecast ok
             @ [ReadForecast bad,
                if e = IOError then LogWarning (ForecastFileNotFound bad)
                else LogError (ForecastReadFailed bad)]
        \<and> chunks (trace v') = chunks (trace v)
        \<and> obsUSED v' = obsUSED v
        \<and> run_cases env config m v (c # cs) = run_cases env config m v' cs"
proof -
  let ?v1 = "v\<lparr>counter_used_FC := (counter_used_FC v)(forecast config c \<mapsto> case_number c)\<rparr>"
  let ?v0 = "?v1\<lparr>trace := trace ?v1 @ [ReadObservations (obs_path config c)],
                  obsTOT := obsTOT ?v1 + int (length obs),
                  computations_cache := Map.empty, computations_result := []\<rparr>"
  define v' where "v' = ?v0\<lparr>trace := trace ?v0 @ map ReadForecast ok @
                    [ReadForecast bad,
                     if e = IOError then LogWarning (ForecastFileNotFound bad)
                     else LogError (ForecastReadFailed bad)]\<rparr>"
  have "base_step env config m c obs computation ?v0 = Break v'"
    unfolding v'_def
    by (rule base_step_forecast_unreadable [OF is_reference_inputs [OF assms(7)] assms(8)
          assms(9) assms(10) assms(11)])
  then have "base_loop env config m c obs (base_computations config) ?v0 = Break v'"
    using assms(6) by simp
  then have "evaluate_case env config m ?v1 c = Inr v'"
    using assms(4) assms(5) by (intro evaluate_case_base_break [where obs = obs]) simp_all
  then have r: "run_case env config m v c = Inr v'"
    using assms(1-3) by (simp add: run_case_evaluates)
  show ?thesis
    by (rule exI [of _ v']) (simp add: r v'_def chunks_append chunks_ReadForecast chunks_ReadForecast_comp)
qed

lemma run_raises_case:
  assumes "counter_used_FC v (forecast config c) = None"
    and "date_start (parameters config) \<le> curr_date c"
    and "curr_date c \<le> date_end (parameters config)"
    and "read_geopoints env (obs_path config c) = Inr obs" and "obs \<noteq> []"
    and "base_computations config = computation # rest"
    and "is_reference config computation"
    and "steps config computation (step_s c) = Inr sl"
    and "map (from_path env) (map (get_grib_path c (code (predictand config))) sl) = map Inr fs"
    and "computer_run env computation (map Fieldset fs) = Inl e"
  shows "run_case env config m v c = Inl e \<and> run_cases env config m v (c # cs) = Inl e"
proof -
  let ?v1 = "v\<lparr>counter_used_FC := (counter_used_FC v)(forecast config c \<mapsto> case_number c)\<rparr>"
  let ?v0 = "?v1\<lparr>trace := trace ?v1 @ [ReadObservations (obs_path config c)],
                  obsTOT := obsTOT ?v1 + int (length obs),
                  computations_cache := Map.empty, computations_result := []\<rparr>"
  have "base_step env config m c obs computation ?v0 = Raise e"
    by (rule base_step_run_raises [OF is_reference_inputs [OF assms(7)] assms(8) assms(9)
          assms(10)])
  then have "base_loop env config m c obs (base_computations config) ?v0 = Raise e"
    using assms(6) by simp
  then have "evaluate_case env config m ?v1 c = Inl e"
    using assms(4) assms(5) by (intro evaluate_case_base_raise [where obs = obs]) simp_all
  then have "run_case env config m v c = Inl e"
    using assms(1-3) by (simp add: run_case_evaluates)
  then show ?thesis by simp
qed

text \<open>
  Claim C8. Take a case that passes the duplicate check and the check of the calibration
  period, whose observation file holds observations, and whose first base computation is
  the reference computation. When the predictand is accumulated, the reference
  computation is post-processed, its forecast files are read, and the mask leaves none of
  its projected values, the case ends with the warning in the log, no chunk for the
  serializer and \<open>obsUSED\<close> as before, and the run goes on with the next case. When a
  forecast file of the reference computation is missing or unreadable, the case ends in
  the same way, the log holding the warning or the error for that file. When
  \<open>Computer.run\<close> raises on the reference computation, nothing catches the exception:
  the case has passed no chunk and the run ends with it.
\<close>

theorem retention_exhausted_skips_case:
  "(is_accumulated (predictand config)
      \<and> counter_used_FC v (forecast config c) = None
      \<and> date_start (parameters config) \<le> curr_date c
      \<and> curr_date c \<le> date_end (parameters config)
      \<and> read_geopoints env (obs_path config c) = Inr obs \<and> obs \<noteq> []
      \<and> base_computations config = computation # rest
      \<and> is_reference config computation \<and> isPostProcessed computation
      \<and> steps config computation (step_s c) = Inr sl
      \<and> map (from_path env) (map (get_grib_path c (code (predictand config))) sl) = map Inr fs
      \<and> computer_run env computation (map Fieldset fs) = Inr x
      \<and> nearest_gridpoint env x obs = Inr g
      \<and> geopoints_filter g (geopoints_ge g m) = [] \<longrightarrow>
    (\<exists>v'. run_case env config m v c = Inr v'
        \<and> trace v' = trace v @ [ReadObservations (obs_path config c)]
             @ map ReadForecast (map (get_grib_path c (code (predictand config))) sl)
             @ [LogWarning (NoObservationAboveMinimum (shortname computation) m)]
        \<and> chunks (trace v') = chunks (trace v)
        \<and> obsUSED v' = obsUSED v
        \<and> obsTOT v' = obsTOT v + int (length obs)
        \<and> mask v' = Some (geopoints_ge g m)
        \<and> ref_geopoints v' = Some []
        \<and> run_cases env config m v (c # cs) = run_cases env config m v' cs))
   \<and> (counter_used_FC v (forecast config c) = None
      \<and> date_start (parameters config) \<le> curr_date c
      \<and> curr_date c \<le> date_end (parameters config)
      \<and> read_geopoints env (obs_path config c) = Inr obs \<and> obs \<noteq> []
      \<and> base_computations config = computation # rest
      \<and> is_reference config computation
      \<and> steps config computation (step_s c) = Inr sl
      \<and> map (get_grib_path c (code (predictand config))) sl = ok @ bad # later
      \<and> map (from_path env) ok = map Inr fs
      \<and> from_path env bad = Inl e \<longrightarrow>
    (\<exists>v'. run_case env config m v c = Inr v'
        \<and> trace v' = trace v @ [ReadObservations (obs_path config c)]
             @ map ReadForecast ok
             @ [ReadForecast bad,
                if e = IOError then LogWarning (ForecastFileNotFound bad)
                else LogError (ForecastReadFailed bad)]
        \<and> chunks (trace v') = chunks (trace v)
        \<and> obsUSED v' = obsUSED v
        \<and> run_cases env config m v (c # cs) = run_cases env config m v' cs))
   \<and> (counter_used_FC v (forecast config c) = None
      \<and> date_start (parameters config) \<le> curr_date c
      \<and> curr_date c \<le> date_end (parameters config)
      \<and> read_geopoints env (obs_path config c) = Inr obs \<and> obs \<noteq> []
      \<and> base_computations config = computation # rest
      \<and> is_reference config computation
      \<and> steps config computation (step_s c) = Inr sl
      \<and> map (from_path env) (map (get_grib_path c (code (predictand config))) sl) = map Inr fs
      \<and> computer_run env computation (map Fieldset fs) = Inl e \<longrightarrow>
    run_case env config m v c = Inl e
    \<and> run_cases env config m v (c # cs) = Inl e)"
proof (intro conjI impI)
  assume "is_accumulated (predictand config)
      \<and> counter_used_FC v (forecast config c) = None
      \<and> date_start (parameters config) \<le> curr_date c
      \<and> curr_date c \<le> date_end (parameters config)
      \<and> read_geopoints env (obs_path config c) = Inr obs \<and> obs \<noteq> []
      \<and> base_computations config = computation # rest
      \<and> is_reference config computation \<and> isPostProcessed computation
      \<and> steps config computation (step_s c) = Inr sl
      \<and> map (from_path env) (map (get_grib_path c (code (predictand config))) sl) = map Inr fs
      \<and> computer_run env computation (map Fieldset fs) = Inr x
      \<and> nearest_gridpoint env x obs = Inr g
      \<and> geopoints_filter g (geopoints_ge g m) = []"
  then show "\<exists>v'. run_case env config m v c = Inr v'
        \<and> trace v' = trace v @ [ReadObservations (obs_path config c)]
             @ map ReadForecast (map (get_grib_path c (code (predictand config))) sl)
             @ [LogWarning (NoObservationAboveMinimum (shortname computation) m)]
        \<and> chunks (trace v') = chunks (trace v)
        \<and> obsUSED v' = obsUSED v
        \<and> obsTOT v' = obsTOT v + int (length obs)
        \<and> mask v' = Some (geopoints_ge g m)
        \<and> ref_geopoints v' = Some []
        \<and> run_cases env config m v (c # cs) = run_cases env config m v' cs"
    by (elim conjE) (rule retention_exhausted_case)
next
  assume "counter_used_FC v (forecast config c) = None
      \<and> date_start (parameters config) \<le> curr_date c
      \<and> curr_date c \<le> date_end (parameters config)
      \<and> read_geopoints env (obs_path config c) = Inr obs \<and> obs \<noteq> []
      \<and> base_computations config = computation # rest
      \<and> is_reference config computation
      \<and> steps config computation (step_s c) = Inr sl
      \<and> map (get_grib_path c (code (predictand config))) sl = ok @ bad # later
      \<and> map (from_path env) ok = map Inr fs
      \<and> from_path env bad = Inl e"
  then show "\<exists>v'. run_case env config m v c = Inr v'
        \<and> trace v' = trace v @ [ReadObservations (obs_path config c)]
             @ map ReadForecast ok
             @ [ReadForecast bad,
                if e = IOError then LogWarning (ForecastFileNotFound bad)
                else LogError (ForecastReadFailed bad)]
        \<and> chunks (trace v') = chunks (trace v)
        \<and> obsUSED v' = obsUSED v
        \<and> run_cases env config m v (c # cs) = run_cases env config m v' cs"
    by (elim conjE) (rule forecast_unreadable_case)
next
  assume a: "counter_used_FC v (forecast config c) = None
      \<and> date_start (parameters config) \<le> curr_date c
      \<and> curr_date c \<le> date_end (parameters config)
      \<and> read_geopoints env (obs_path config c) = Inr obs \<and> obs \<noteq> []
      \<and> base_computations config = computation # rest
      \<and> is_reference config computation
      \<and> steps config computation (step_s c) = Inr sl
      \<and> map (from_path env) (map (get_grib_path c (code (predictand config))) sl) = map Inr fs
      \<and> computer_run env computation (map Fieldset fs) = Inl e"
  then have "run_case env config m v c = Inl e \<and> run_cases env config m v (c # cs) = Inl e"
    by (elim conjE) (rule run_raises_case)
  then show "run_case env config m v c = Inl e" and "run_cases env config m v (c # cs) = Inl e"
    by simp_all
qed


theorem retention_exhausted_skips_case_witness:
  "is_accumulated (predictand (example_config True 6 example_computations))
   \<and> base_computations (example_config True 6 example_computations)
       = [example_computation ''TP'' ''ACCUMULATED_FIELD'' [''tp''] True,
          example_computation ''CAPE'' ''ACCUMULATED_FIELD'' [''cape''] True]
   \<and> is_reference (example_config True 6 example_computations)
        (example_computation ''TP'' ''ACCUMULATED_FIELD'' [''tp''] True)
   \<and> read_geopoints example_env
        (obs_path (example_config True 6 example_computations) (example_case 3 1))
       = Inr example_obs
   \<and> nearest_gridpoint example_env (Fieldset [1, 1, 1, 2, 1]) example_obs
       = Inr (map2 (\<lambda>p y. p\<lparr>val := y\<rparr>) example_obs [1, 1, 1, 2, 1])
   \<and> geopoints_filter (map2 (\<lambda>p y. p\<lparr>val := y\<rparr>) example_obs [1, 1, 1, 2, 1])
        (geopoints_ge (map2 (\<lambda>p y. p\<lparr>val := y\<rparr>) example_obs [1, 1, 1, 2, 1]) 3) = []
   \<and> (\<exists>v'. run_case example_env (example_config True 6 example_computations) 3
               (initial_vars :: array Vars) (example_case 3 1) = Inr v'
         \<and> trace v' = [ReadObservations (ObsPath ''tp'' (Some 6) 3 6),
                        ReadForecast (GribPath ''tp'' 3 0 0),
                        ReadForecast (GribPath ''tp'' 3 0 6),
                        LogWarning (NoObservationAboveMinimum ''TP'' 3)]
         \<and> chunks (trace v') = [] \<and> obsUSED v' = 0 \<and> obsTOT v' = 5)
   \<and> from_path example_env (GribPath ''tp'' 4 0 0) = Inl IOError
   \<and> (\<exists>v'. run_case example_env (example_config True 6 example_computations) 3
               (initial_vars :: array Vars) (example_case 4 1) = Inr v'
         \<and> trace v' = [ReadObservations (ObsPath ''tp'' (Some 6) 4 6),
                        ReadForecast (GribPath ''tp'' 4 0 0),
                        LogWarning (ForecastFileNotFound (GribPath ''tp'' 4 0 0))]
         \<and> chunks (trace v') = [] \<and> obsUSED v' = 0)
   \<and> computer_run example_env (example_computation ''TP'' ''AVERAGE_FIELD'' [''tp''] True)
        (map Fieldset [[0, 0, 0, 0, 0], [1, 2, 3, 4, 5], [1, 2, 3, 4, 5]]) = Inl TypeError
   \<and> run_case example_env
        (example_config True 12 [example_computation ''TP'' ''AVERAGE_FIELD'' [''tp''] True]) 3
        (initial_vars :: array Vars) (example_case 1 1) = Inl TypeError"
proof -
  let ?cfg = "example_config True 6 example_computations"
  let ?tp = "example_computation ''TP'' ''ACCUMULATED_FIELD'' [''tp''] True"
  let ?cape = "example_computation ''CAPE'' ''ACCUMULATED_FIELD'' [''cape''] True"
  let ?v = "initial_vars :: array Vars"
  let ?g = "map2 (\<lambda>p y. p\<lparr>val := y\<rparr>) example_obs [1, 1, 1, 2, 1]"
  have acc: "is_accumulated (predictand ?cfg)" by (simp add: example_config_def)
  have cd: "code (predictand ?cfg) = ''tp''" by (simp add: example_config_def)
  have new: "\<And>c. counter_used_FC ?v (forecast ?cfg c) = None" by (simp add: initial_vars_def)
  have rng: "\<And>d n. 0 \<le> d \<Longrightarrow> d \<le> 10 \<Longrightarrow>
      date_start (parameters ?cfg) \<le> curr_date (example_case d n)
      \<and> curr_date (example_case d n) \<le> date_end (parameters ?cfg)"
    by (simp add: example_config_def example_case_def)
  have base: "base_computations ?cfg = ?tp # [?cape]" by code_simp
  have ref: "is_reference ?cfg ?tp" by code_simp
  have pp: "isPostProcessed ?tp" by (simp add: example_computation_def)
  have p3: "obs_path ?cfg (example_case 3 1) = ObsPath ''tp'' (Some 6) 3 6"
    and p4: "obs_path ?cfg (example_case 4 1) = ObsPath ''tp'' (Some 6) 4 6"
    by (simp_all add: obs_path_def DateVF_def HourVF_num_def validDateF_def example_config_def
        example_case_def)
  have o3: "read_geopoints example_env (obs_path ?cfg (example_case 3 1)) = Inr example_obs"
    and o4: "read_geopoints example_env (obs_path ?cfg (example_case 4 1)) = Inr example_obs"
    unfolding p3 p4 by (simp_all add: example_env_def)
  have ne: "example_obs \<noteq> []" by (simp add: example_obs_def)
  have st: "\<And>d n. steps ?cfg ?tp (step_s (example_case d n)) = Inr [0, 6]"
    by (simp add: steps_def example_config_def example_computation_def example_case_def)
  have f3: "map (from_path example_env)
              (map (get_grib_path (example_case 3 1) (code (predictand ?cfg))) [0, 6])
            = map Inr [[0, 0, 0, 0, 0], [1, 1, 1, 2, 1]]"
    by (simp add: cd get_grib_path_def example_case_def example_env_def)
  have run3: "computer_run example_env ?tp (map Fieldset [[0, 0, 0, 0, 0], [1, 1, 1, 2, 1]])
                = Inr (Fieldset [1, 1, 1, 2, 1])"
    by (simp add: example_env_def)
  have ng: "nearest_gridpoint example_env (Fieldset [1, 1, 1, 2, 1]) example_obs = Inr ?g"
    by (simp add: example_env_def)
  have empty: "geopoints_filter ?g (geopoints_ge ?g 3) = []"
    by (simp add: geopoints_filter_def geopoints_ge_def example_obs_def)
  note T3 = retention_exhausted_skips_case [of ?cfg ?v "example_case 3 1" example_env example_obs
      ?tp "[?cape]" "[0, 6]" "[[0, 0, 0, 0, 0], [1, 1, 1, 2, 1]]" "Fieldset [1, 1, 1, 2, 1]" ?g 3 "[]"]
  have A: "\<exists>v'. run_case example_env ?cfg 3 ?v (example_case 3 1) = Inr v'
        \<and> trace v' = trace ?v @ [ReadObservations (obs_path ?cfg (example_case 3 1))]
             @ map ReadForecast (map (get_grib_path (example_case 3 1) (code (predictand ?cfg))) [0, 6])
             @ [LogWarning (NoObservationAboveMinimum (shortname ?tp) 3)]
        \<and> chunks (trace v') = chunks (trace ?v)
        \<and> obsUSED v' = obsUSED ?v
        \<and> obsTOT v' = obsTOT ?v + int (length example_obs)
        \<and> mask v' = Some (geopoints_ge ?g 3)
        \<and> ref_geopoints v' = Some []
        \<and> run_cases example_env ?cfg 3 ?v (example_case 3 1 # []) = run_cases example_env ?cfg 3 v' []"
    by (rule T3 [THEN conjunct1, THEN mp])
       (use acc new rng [of 3 1] o3 ne base ref pp st [of 3 1] f3 run3 ng empty in simp)
  have paths4: "map (get_grib_path (example_case 4 1) (code (predictand ?cfg))) [0, 6]
      = [] @ GribPath ''tp'' 4 0 0 # [GribPath ''tp'' 4 0 6]"
    by (simp add: cd get_grib_path_def example_case_def)
  have bad4: "from_path example_env (GribPath ''tp'' 4 0 0) = Inl IOError"
    by (simp add: example_env_def)
  note T4 = retention_exhausted_skips_case [where config = ?cfg and v = ?v
      and c = "example_case 4 1" and env = example_env and obs = example_obs
      and computation = ?tp and rest = "[?cape]" and sl = "[0, 6]" and fs = "[]"
      and ok = "[]" and bad = "GribPath ''tp'' 4 0 0" and later = "[GribPath ''tp'' 4 0 6]"
      and e = IOError and m = 3 and cs = "[]"]
  have B: "\<exists>v'. run_case example_env ?cfg 3 ?v (example_case 4 1) = Inr v'
        \<and> trace v' = trace ?v @ [ReadObservations (obs_path ?cfg (example_case 4 1))]
             @ map ReadForecast []
             @ [ReadForecast (GribPath ''tp'' 4 0 0),
                if IOError = IOError then LogWarning (ForecastFileNotFound (GribPath ''tp'' 4 0 0))
                else LogError (ForecastReadFailed (GribPath ''tp'' 4 0 0))]
        \<and> chunks (trace v') = chunks (trace ?v)
        \<and> obsUSED v' = obsUSED ?v
        \<and> run_cases example_env ?cfg 3 ?v (example_case 4 1 # []) = run_cases example_env ?cfg 3 v' []"
    by (rule T4 [THEN conjunct2, THEN conjunct1, THEN mp])
       (use new rng [of 4 1] o4 ne base ref st [of 4 1] paths4 bad4 in simp)
  let ?cfg2 = "example_config True 12 [example_computation ''TP'' ''AVERAGE_FIELD'' [''tp''] True]"
  let ?avg = "example_computation ''TP'' ''AVERAGE_FIELD'' [''tp''] True"
  have new2: "counter_used_FC ?v (forecast ?cfg2 (example_case 1 1)) = None"
    by (simp add: initial_vars_def)
  have rng2: "date_start (parameters ?cfg2) \<le> curr_date (example_case 1 1)
      \<and> curr_date (example_case 1 1) \<le> date_end (parameters ?cfg2)"
    by (simp add: example_config_def example_case_def)
  have o2: "read_geopoints example_env (obs_path ?cfg2 (example_case 1 1)) = Inr example_obs"
    by (simp add: obs_path_def DateVF_def HourVF_num_def validDateF_def example_config_def
        example_case_def example_env_def)
  have base2: "base_computations ?cfg2 = ?avg # []" by code_simp
  have ref2: "is_reference ?cfg2 ?avg" by code_simp
  have st2: "steps ?cfg2 ?avg (step_s (example_case 1 1)) = Inr [0, 6, 12]" by code_simp
  have f2: "map (from_path example_env)
              (map (get_grib_path (example_case 1 1) (code (predictand ?cfg2))) [0, 6, 12])
            = map Inr [[0, 0, 0, 0, 0], [1, 2, 3, 4, 5], [1, 2, 3, 4, 5]]"
    by (simp add: example_config_def get_grib_path_def example_case_def example_env_def)
  have run2: "computer_run example_env ?avg
      (map Fieldset [[0, 0, 0, 0, 0], [1, 2, 3, 4, 5], [1, 2, 3, 4, 5]]) = Inl TypeError"
    by (simp add: example_env_def)
  note T2 = retention_exhausted_skips_case [where config = ?cfg2 and v = ?v
      and c = "example_case 1 1" and env = example_env and obs = example_obs
      and computation = ?avg and rest = "[]" and sl = "[0, 6, 12]"
      and fs = "[[0, 0, 0, 0, 0], [1, 2, 3, 4, 5], [1, 2, 3, 4, 5]]" and e = TypeError and m = 3]
  have "run_case example_env ?cfg2 3 ?v (example_case 1 1) = Inl TypeError
        \<and> run_cases example_env ?cfg2 3 ?v (example_case 1 1 # cs) = Inl TypeError" for cs
    by (rule T2 [THEN conjunct2, THEN conjunct2, THEN mp])
       (use new2 rng2 o2 ne base2 ref2 st2 f2 run2 in simp)
  then have C: "run_case example_env ?cfg2 3 ?v (example_case 1 1) = Inl TypeError" by simp
  have iv: "trace ?v = []" "obsUSED ?v = 0" "obsTOT ?v = 0" by (simp_all add: initial_vars_def)
  have sn: "shortname ?tp = ''TP''" by (simp add: example_computation_def)
  have gp3: "map ReadForecast (map (get_grib_path (example_case 3 1) (code (predictand ?cfg))) [0, 6])
      = [ReadForecast (GribPath ''tp'' 3 0 0), ReadForecast (GribPath ''tp'' 3 0 6)]"
    by (simp add: cd get_grib_path_def example_case_def)
  have l5: "length example_obs = 5" by (simp add: example_obs_def)
  have A': "\<exists>v'. run_case example_env ?cfg 3 ?v (example_case 3 1) = Inr v'
         \<and> trace v' = [ReadObservations (ObsPath ''tp'' (Some 6) 3 6),
                        ReadForecast (GribPath ''tp'' 3 0 0),
                        ReadForecast (GribPath ''tp'' 3 0 6),
                        LogWarning (NoObservationAboveMinimum ''TP'' 3)]
         \<and> chunks (trace v') = [] \<and> obsUSED v' = 0 \<and> obsTOT v' = 5"
    using A [unfolded gp3 p3 sn] by (auto simp: iv l5)
  have B': "\<exists>v'. run_case example_env ?cfg 3 ?v (example_case 4 1) = Inr v'
         \<and> trace v' = [ReadObservations (ObsPath ''tp'' (Some 6) 4 6),
                        ReadForecast (GribPath ''tp'' 4 0 0),
                        LogWarning (ForecastFileNotFound (GribPath ''tp'' 4 0 0))]
         \<and> chunks (trace v') = [] \<and> obsUSED v' = 0"
    using B by (auto simp: iv p4)
  show ?thesis
    using acc base ref o3 ng empty A' bad4 B' run2 C by simp
qed


section \<open>The retention mask of a case\<close>



lemma geopoints_filter_all:
  "length ms = length g \<Longrightarrow> \<forall>b\<in>set ms. b \<Longrightarrow> geopoints_filter g ms = g"
  by (induction ms g rule: list_induct2) (auto simp: geopoints_filter_def)




















end
